theory Spec2Isabelle
  imports Main
begin

section \<open>Swift temporary URLs of the Glance image service\<close>

text \<open>
  A shallow embedding of \<^verbatim>\<open>GlanceImageService\<close> in
  \<^verbatim>\<open>ironic/common/glance_service/v2/image_service.py\<close>: the validation of the
  configuration, the choice of the Swift container, the temporary URL cache and
  \<^verbatim>\<open>swift_temp_url\<close> itself.

  Strings are \<open>char list\<close>; identifiers and URLs are taken to be ASCII. The
  class attribute \<^verbatim>\<open>_cache\<close> is passed in and handed back. Exceptions are
  values of \<open>exc\<close>. Every call that leaves the module (Keystone, Swift, the
  signing function of \<^verbatim>\<open>swiftclient\<close>) is recorded in a trace.
\<close>

subsection \<open>Configuration, cache, collaborators\<close>

text \<open>The options of the \<^verbatim>\<open>[glance]\<close> group that the code reads from \<^verbatim>\<open>CONF\<close>.\<close>

record conf =
  swift_temp_url_cache_enabled :: bool
  swift_temp_url_duration :: int
  swift_temp_url_expected_download_start_delay :: int
  swift_store_multiple_containers_seed :: "int option"
  swift_container :: string
  swift_api_version :: string
  swift_account :: "string option"
  swift_endpoint_url :: "string option"
  swift_temp_url_key :: "string option"

text \<open>\<^verbatim>\<open>TempUrlCacheElement = namedtuple(..., ['url', 'url_expires_at'])\<close>\<close>

record TempUrlCacheElement =
  url :: string
  url_expires_at :: int

type_synonym cache = "string \<rightharpoonup> TempUrlCacheElement"

datatype exc =
    InvalidParameterValue
  | ImageUnacceptable
  | MissingParameterValue
  | KeyError
  | ValueError
  | TypeError

text \<open>Calls that leave the module, in the order in which they are made.\<close>

datatype call =
    GetEndpoint
  | GetAuthRef
  | HeadAccount
  | Sign string int string string

text \<open>
  What the collaborators answer during one call. None of them is code of this
  repository, so each is a parameter:
  \<^item> \<open>time_now\<close> is \<^verbatim>\<open>int(time.time())\<close>;
  \<^item> \<open>is_uuid_like\<close> is \<^verbatim>\<open>uuidutils.is_uuid_like\<close>;
  \<^item> \<open>get_endpoint\<close> is \<^verbatim>\<open>adapter.get_endpoint()\<close> of the Keystone adapter;
  \<^item> \<open>project_id\<close> is \<^verbatim>\<open>auth_ref.project_id\<close>;
  \<^item> \<open>head_account_temp_url_key\<close> is
    \<^verbatim>\<open>head_account().get('x-account-meta-temp-url-key')\<close>;
  \<^item> \<open>swift_utils_generate_temp_url\<close> is \<^verbatim>\<open>swift_utils.generate_temp_url\<close>
    (\<open>None\<close> when it raises \<^verbatim>\<open>ValueError\<close>);
  \<^item> \<open>query_temp_url_expires\<close> is
    \<^verbatim>\<open>dict(parse_qsl(urlparse(u).query)).get('temp_url_expires')\<close>;
  \<^item> \<open>py_int\<close> is \<^verbatim>\<open>int\<close> on a string (\<open>None\<close> when it raises
    \<^verbatim>\<open>ValueError\<close>).
\<close>

record env =
  time_now :: int
  is_uuid_like :: "string \<Rightarrow> bool"
  get_endpoint :: "string option"
  project_id :: string
  head_account_temp_url_key :: "string option"
  swift_utils_generate_temp_url :: "string \<Rightarrow> int \<Rightarrow> string \<Rightarrow> string \<Rightarrow> string option"
  query_temp_url_expires :: "string \<Rightarrow> string option"
  py_int :: "string \<Rightarrow> int option"

text \<open>What a call leaves behind: the value or the exception, the cache, the trace.\<close>

record outcome =
  ret :: "exc + string"
  cache_after :: cache
  calls :: "call list"

text \<open>Python's \<^verbatim>\<open>not x\<close> on an optional string: \<^verbatim>\<open>None\<close> and \<^verbatim>\<open>''\<close> are false.\<close>

definition falsy :: "string option \<Rightarrow> bool" where
  "falsy x = (case x of None \<Rightarrow> True | Some s \<Rightarrow> s = [])"

subsection \<open>\<^verbatim>\<open>_validate_temp_url_config\<close>\<close>

definition validate_temp_url_config :: "conf \<Rightarrow> exc option" where
  "validate_temp_url_config cf =
     (if swift_temp_url_duration cf < swift_temp_url_expected_download_start_delay cf
      then Some InvalidParameterValue
      else (case swift_store_multiple_containers_seed cf of
              None \<Rightarrow> Some InvalidParameterValue
            | Some seed_num_chars \<Rightarrow>
                if seed_num_chars < 0 \<or> seed_num_chars > 32
                then Some InvalidParameterValue
                else None))"

subsection \<open>\<^verbatim>\<open>_get_swift_container\<close>\<close>

text \<open>\<^verbatim>\<open>str.lower\<close> on ASCII: the letters A to Z move by 32, the rest stays.\<close>

definition lower_char :: "char \<Rightarrow> char" where
  "lower_char c =
     (let n = (of_char c :: nat)
      in if 65 \<le> n \<and> n \<le> 90 then char_of (n + 32) else c)"

definition lower :: "string \<Rightarrow> string" where
  "lower s = map lower_char s"

text \<open>
  \<^verbatim>\<open>seed_num_chars > 0\<close> on \<^verbatim>\<open>None\<close> raises \<^verbatim>\<open>TypeError\<close> (Python 3); the
  validation above keeps \<^verbatim>\<open>None\<close> away from here. A slice \<^verbatim>\<open>s[:n]\<close> with
  \<open>n \<ge> 0\<close> is \<open>take n s\<close>.
\<close>

definition get_swift_container :: "conf \<Rightarrow> string \<Rightarrow> exc + string" where
  "get_swift_container cf image_id =
     (case swift_store_multiple_containers_seed cf of
        None \<Rightarrow> Inl TypeError
      | Some seed_num_chars \<Rightarrow>
          if seed_num_chars > 0 then
            (let image_id' = lower image_id;
                 num_dashes = count_list (take (nat seed_num_chars) image_id') (CHR ''-'');
                 num_chars = seed_num_chars + int num_dashes;
                 name_suffix = take (nat num_chars) image_id';
                 new_container_name = swift_container cf @ ''_'' @ name_suffix
             in Inr new_container_name)
          else Inr (swift_container cf))"

subsection \<open>\<^verbatim>\<open>_remove_expired_items_from_cache\<close>\<close>

text \<open>
  The source collects the keys \<open>k\<close> with \<^verbatim>\<open>v.url_expires_at < max_valid_time\<close> and
  deletes each of them; on a map that is the pointwise filter.
\<close>

definition remove_expired_items_from_cache :: "conf \<Rightarrow> env \<Rightarrow> cache \<Rightarrow> cache" where
  "remove_expired_items_from_cache cf ev c =
     (let max_valid_time = time_now ev + swift_temp_url_expected_download_start_delay cf
      in (\<lambda>k. case c k of
                 None \<Rightarrow> None
               | Some v \<Rightarrow> if url_expires_at v < max_valid_time then None else Some v))"

subsection \<open>\<^verbatim>\<open>_generate_temp_url\<close>\<close>

definition generate_temp_url ::
  "conf \<Rightarrow> env \<Rightarrow> string \<Rightarrow> int \<Rightarrow> string \<Rightarrow> string \<Rightarrow> string \<Rightarrow> string \<Rightarrow> cache \<Rightarrow> outcome" where
  "generate_temp_url cf ev path seconds key method endpoint image_id c =
     (let c1 = (if swift_temp_url_cache_enabled cf
                then remove_expired_items_from_cache cf ev c else c);
          hit = (if swift_temp_url_cache_enabled cf then c1 image_id else None)
      in case hit of
           Some el \<Rightarrow> \<lparr>ret = Inr (url el), cache_after = c1, calls = []\<rparr>
         | None \<Rightarrow>
            (case swift_utils_generate_temp_url ev path seconds key method of
               None \<Rightarrow>
                 \<lparr>ret = Inl ValueError, cache_after = c1,
                  calls = [Sign path seconds key method]\<rparr>
             | Some url_path \<Rightarrow>
                (let temp_url = endpoint @ url_path
                 in if swift_temp_url_cache_enabled cf then
                      (case query_temp_url_expires ev temp_url of
                         None \<Rightarrow>
                           \<lparr>ret = Inl KeyError, cache_after = c1,
                            calls = [Sign path seconds key method]\<rparr>
                       | Some exp_time_str \<Rightarrow>
                          (case py_int ev exp_time_str of
                             None \<Rightarrow>
                               \<lparr>ret = Inl ValueError, cache_after = c1,
                                calls = [Sign path seconds key method]\<rparr>
                           | Some e \<Rightarrow>
                               \<lparr>ret = Inr temp_url,
                                cache_after =
                                  c1(image_id \<mapsto> \<lparr>url = temp_url, url_expires_at = e\<rparr>),
                                calls = [Sign path seconds key method]\<rparr>))
                    else \<lparr>ret = Inr temp_url, cache_after = c1,
                          calls = [Sign path seconds key method]\<rparr>)))"

subsection \<open>The endpoint without its account\<close>

text \<open>
  \<^verbatim>\<open>re.sub('/v1/AUTH_[^/]+/?$', '', endpoint_url)\<close>. The pattern is tied to the end
  of the string, and \<^verbatim>\<open>[^/]+\<close> takes no slash, so a match is the last two
  segments of the string: \<^verbatim>\<open>v1\<close> and \<^verbatim>\<open>AUTH_\<close> followed by at least one
  character. \<open>strip_v1_auth\<close> finds them from the end of the string and gives what
  stands before them.
\<close>

definition strip_v1_auth :: "string \<Rightarrow> string option" where
  "strip_v1_auth body =
     (let r = rev body;
          seg = takeWhile (\<lambda>c. c \<noteq> CHR ''/'') r;
          rest = dropWhile (\<lambda>c. c \<noteq> CHR ''/'') r
      in if 5 < length seg \<and> drop (length seg - 5) seg = ''_HTUA'' \<and> take 4 rest = ''/1v/''
         then Some (rev (drop 4 rest)) else None)"

text \<open>
  After the account the pattern allows one slash, and Python's \<^verbatim>\<open>$\<close> matches at
  the end of the string and also before a newline that ends the string. A string
  ending in a slash and a newline can therefore only match up to the newline, which
  stays; a string ending in a slash only with the slash as the optional one; any
  other string only with \<^verbatim>\<open>[^/]+\<close> running to the end. There is at most one
  match, and \<^verbatim>\<open>re.sub\<close> leaves a string without a match as it is.
\<close>

definition re_sub_v1_auth :: "string \<Rightarrow> string" where
  "re_sub_v1_auth s =
     (if s \<noteq> [] \<and> last s = CHR 0x0A \<and> butlast s \<noteq> [] \<and> last (butlast s) = CHR ''/'' then
        (case strip_v1_auth (butlast (butlast s)) of
           Some p \<Rightarrow> p @ [CHR 0x0A] | None \<Rightarrow> s)
      else if s \<noteq> [] \<and> last s = CHR ''/'' then
        (case strip_v1_auth (butlast s) of
           Some p \<Rightarrow> p | None \<Rightarrow> s)
      else
        (case strip_v1_auth s of
           Some p \<Rightarrow> p | None \<Rightarrow> s))"

subsection \<open>\<^verbatim>\<open>swift_temp_url\<close>\<close>

text \<open>
  \<open>image_info\<close> is the dictionary that Glance returned. An exception leaves
  the cache as it is at that moment and the trace as far as it got.
\<close>

definition swift_temp_url :: "conf \<Rightarrow> env \<Rightarrow> (string \<rightharpoonup> string) \<Rightarrow> cache \<Rightarrow> outcome" where
  "swift_temp_url cf ev image_info c =
     (case validate_temp_url_config cf of
        Some e \<Rightarrow> \<lparr>ret = Inl e, cache_after = c, calls = []\<rparr>
      | None \<Rightarrow>
     (case image_info ''id'' of
        None \<Rightarrow> \<lparr>ret = Inl ImageUnacceptable, cache_after = c, calls = []\<rparr>
      | Some image_id \<Rightarrow>
     if \<not> is_uuid_like ev image_id
     then \<lparr>ret = Inl ImageUnacceptable, cache_after = c, calls = []\<rparr>
     else
     (case get_swift_container cf image_id of
        Inl e \<Rightarrow> \<lparr>ret = Inl e, cache_after = c, calls = []\<rparr>
      | Inr container \<Rightarrow>
     (let (endpoint_url, tr1) =
            (if falsy (swift_endpoint_url cf)
             then (get_endpoint ev, [GetEndpoint])
             else (swift_endpoint_url cf, []))
      in case endpoint_url of
        None \<Rightarrow> \<lparr>ret = Inl MissingParameterValue, cache_after = c, calls = tr1\<rparr>
      | Some endpoint_url1 \<Rightarrow>
     if endpoint_url1 = []
     then \<lparr>ret = Inl MissingParameterValue, cache_after = c, calls = tr1\<rparr>
     else
     (let endpoint_url2 = re_sub_v1_auth endpoint_url1;
          (account, tr2) =
            (case swift_account cf of
               None \<Rightarrow> (''AUTH_'' @ project_id ev, [GetAuthRef])
             | Some a \<Rightarrow>
                 if a = [] then (''AUTH_'' @ project_id ev, [GetAuthRef]) else (a, []));
          (key, tr3) =
            (if falsy (swift_temp_url_key cf)
             then (head_account_temp_url_key ev, [HeadAccount])
             else (swift_temp_url_key cf, []))
      in case key of
        None \<Rightarrow>
          \<lparr>ret = Inl MissingParameterValue, cache_after = c, calls = tr1 @ tr2 @ tr3\<rparr>
      | Some key1 \<Rightarrow>
     if key1 = []
     then \<lparr>ret = Inl MissingParameterValue, cache_after = c, calls = tr1 @ tr2 @ tr3\<rparr>
     else
     (let url_path =
            ''/'' @ swift_api_version cf @ ''/'' @ account @ ''/'' @ container
              @ ''/'' @ image_id;
          r = generate_temp_url cf ev url_path (swift_temp_url_duration cf) key1
                ''GET'' endpoint_url2 image_id c
      in r\<lparr>calls := tr1 @ tr2 @ tr3 @ calls r\<rparr>))))))"

subsection \<open>Vocabulary of the specification\<close>

text \<open>
  The resolver as the specification words it: the base name alone for a seed length
  of zero, otherwise the base name, an underscore and a prefix of the lowercased
  identifier, as long as the seed length plus the number of separators among the
  first seed-length characters.
\<close>

definition resolveContainer :: "string \<Rightarrow> string \<Rightarrow> nat \<Rightarrow> string" where
  "resolveContainer objectId baseName seedLength =
     (if seedLength = 0 then baseName
      else (let lowered = lower objectId;
                window = take seedLength lowered;
                separators = length (filter (\<lambda>ch. ch = CHR ''-'') window)
            in baseName @ ''_'' @ take (seedLength + separators) lowered))"

text \<open>The number of characters of a string that are not the separator.\<close>

definition non_separators :: "string \<Rightarrow> nat" where
  "non_separators s = length (filter (\<lambda>ch. ch \<noteq> CHR ''-'') s)"

text \<open>
  The signing primitive among the calls: \<open>signings\<close> counts how often
  \<^verbatim>\<open>swift_utils.generate_temp_url\<close> was called.
\<close>

fun is_sign :: "call \<Rightarrow> bool" where
  "is_sign (Sign path seconds key method) = True"
| "is_sign other = False"

definition signings :: "call list \<Rightarrow> nat" where
  "signings tr = length (filter is_sign tr)"

text \<open>
  The three lookups of \<^verbatim>\<open>swift_temp_url\<close> and its path template, each with the
  value it finds and the calls it makes, named so that properties can speak of them.
\<close>

definition endpoint_lookup :: "conf \<Rightarrow> env \<Rightarrow> string option \<times> call list" where
  "endpoint_lookup cf ev =
     (if falsy (swift_endpoint_url cf) then (get_endpoint ev, [GetEndpoint])
      else (swift_endpoint_url cf, []))"

definition account_lookup :: "conf \<Rightarrow> env \<Rightarrow> string \<times> call list" where
  "account_lookup cf ev =
     (case swift_account cf of
        None \<Rightarrow> (''AUTH_'' @ project_id ev, [GetAuthRef])
      | Some a \<Rightarrow> if a = [] then (''AUTH_'' @ project_id ev, [GetAuthRef]) else (a, []))"

definition key_lookup :: "conf \<Rightarrow> env \<Rightarrow> string option \<times> call list" where
  "key_lookup cf ev =
     (if falsy (swift_temp_url_key cf) then (head_account_temp_url_key ev, [HeadAccount])
      else (swift_temp_url_key cf, []))"

definition url_path :: "conf \<Rightarrow> string \<Rightarrow> string \<Rightarrow> string \<Rightarrow> string" where
  "url_path cf account container i =
     ''/'' @ swift_api_version cf @ ''/'' @ account @ ''/'' @ container @ ''/'' @ i"

text \<open>
  An endpoint that ends in the segments \<^verbatim>\<open>/v1/AUTH_<tenant>\<close>, with or without one
  slash after them; a tenant is any non-empty string without a slash.
\<close>

definition has_v1_auth_suffix :: "string \<Rightarrow> bool" where
  "has_v1_auth_suffix s =
     (\<exists>e t. t \<noteq> [] \<and> CHR ''/'' \<notin> set t
        \<and> (s = e @ ''/v1/AUTH_'' @ t \<or> s = e @ ''/v1/AUTH_'' @ t @ ''/''))"

subsection \<open>Example data\<close>

text \<open>A configuration, an identifier in the canonical UUID layout, used at concrete inputs.\<close>

definition example_conf :: conf where
  "example_conf =
     \<lparr>swift_temp_url_cache_enabled = True,
      swift_temp_url_duration = 1200,
      swift_temp_url_expected_download_start_delay = 300,
      swift_store_multiple_containers_seed = Some 13,
      swift_container = ''glance'',
      swift_api_version = ''v1'',
      swift_account = Some ''AUTH_a422b2'',
      swift_endpoint_url = Some ''https://swift.example.com:8080'',
      swift_temp_url_key = Some ''correcthorse''\<rparr>"

definition example_uuid :: string where
  "example_uuid = ''3a1bcd4f-ef01-4a2b-8c3d-0123456789ab''"

text \<open>
  Collaborators for the examples. The clock stands at 1000; an identifier is accepted
  when it has 36 characters; the signer, asked at time 1000 for 1200 seconds, stamps
  the expiry 2200; the expiry is read as what follows the last \<^verbatim>\<open>=\<close> of the URL,
  and a string of decimal digits is read as a number.
\<close>

definition example_query_expires :: "string \<Rightarrow> string option" where
  "example_query_expires u =
     (let v = rev (takeWhile (\<lambda>ch. ch \<noteq> CHR ''='') (rev u))
      in if v = [] \<or> length v = length u then None else Some v)"

definition example_py_int :: "string \<Rightarrow> int option" where
  "example_py_int s =
     (if s \<noteq> [] \<and> list_all (\<lambda>ch. 48 \<le> (of_char ch :: nat) \<and> (of_char ch :: nat) \<le> 57) s
      then Some (foldl (\<lambda>a ch. 10 * a + (of_char ch - 48)) 0 s)
      else None)"

definition example_env :: env where
  "example_env =
     \<lparr>time_now = 1000,
      is_uuid_like = (\<lambda>s. length s = 36),
      get_endpoint = Some ''https://proxy.example.com/v1/AUTH_a422b2'',
      project_id = ''a422b2'',
      head_account_temp_url_key = Some ''sesame'',
      swift_utils_generate_temp_url =
        (\<lambda>path seconds key method. Some (path @ ''?temp_url_sig=5e1f&temp_url_expires=2200'')),
      query_temp_url_expires = example_query_expires,
      py_int = example_py_int\<rparr>"

text \<open>The same collaborators with a signer whose clock is behind: it stamps 1200.\<close>

definition example_slow_env :: env where
  "example_slow_env =
     example_env\<lparr>swift_utils_generate_temp_url :=
       (\<lambda>path seconds key method. Some (path @ ''?temp_url_sig=5e1f&temp_url_expires=1200''))\<rparr>"

definition example_info :: "string \<rightharpoonup> string" where
  "example_info = [''id'' \<mapsto> example_uuid, ''name'' \<mapsto> ''cirros'']"

text \<open>A cache holding one entry for another image; at time 1000 it has 100 seconds left.\<close>

definition example_cache :: cache where
  "example_cache =
     [''7c9e6679-7425-40de-944b-e07fc1f90ae7'' \<mapsto>
        \<lparr>url = ''https://swift.example.com:8080/v1/AUTH_a422b2/glance/7c9e?temp_url_expires=1100'',
         url_expires_at = 1100\<rparr>]"

text \<open>A cache holding the entry of the example image, expiring at the given time.\<close>

definition example_old_url :: string where
  "example_old_url = ''https://swift.example.com:8080/v1/AUTH_a422b2/glance_3a1bcd4f-ef01-/3a1bcd4f-ef01-4a2b-8c3d-0123456789ab?temp_url_sig=01d&temp_url_expires=0''"

definition cached_until :: "int \<Rightarrow> cache" where
  "cached_until e = [example_uuid \<mapsto> \<lparr>url = example_old_url, url_expires_at = e\<rparr>]"

text \<open>The URL that the example signer produces for the example image.\<close>

definition example_new_url :: string where
  "example_new_url = ''https://swift.example.com:8080/v1/AUTH_a422b2/glance_3a1bcd4f-ef01-/3a1bcd4f-ef01-4a2b-8c3d-0123456789ab?temp_url_sig=5e1f&temp_url_expires=2200''"

text \<open>The URL that the signer with the late clock produces for the example image.\<close>

definition example_slow_url :: string where
  "example_slow_url = ''https://swift.example.com:8080/v1/AUTH_a422b2/glance_3a1bcd4f-ef01-/3a1bcd4f-ef01-4a2b-8c3d-0123456789ab?temp_url_sig=5e1f&temp_url_expires=1200''"

text \<open>An endpoint with its account, a slash and a line feed at the end.\<close>

definition example_newline_endpoint :: string where
  "example_newline_endpoint = ''https://proxy.example.com/v1/AUTH_a422b2/'' @ [CHR 0x0A]"

section \<open>Properties\<close>

subsection \<open>The container of an image\<close>

lemma count_list_filter: "count_list xs x = length (filter (\<lambda>y. y = x) xs)"
  by (induction xs) auto

lemma lower_append: "lower (xs @ ys) = lower xs @ lower ys"
  by (simp add: lower_def)

lemma length_lower: "length (lower s) = length s"
  by (simp add: lower_def)

lemma non_separators_count: "non_separators s + count_list s (CHR ''-'') = length s"
  unfolding non_separators_def by (induction s) auto

lemma non_separators_append: "non_separators (xs @ ys) = non_separators xs + non_separators ys"
  by (simp add: non_separators_def)

lemma non_separators_all: "CHR ''-'' \<notin> set s \<Longrightarrow> non_separators s = length s"
  unfolding non_separators_def by (induction s) auto

text \<open>
  C2. With the seed at \<open>n \<ge> 0\<close>, \<^verbatim>\<open>_get_swift_container\<close> returns what the
  specification's resolver describes: the container alone for \<open>n = 0\<close>, and for
  \<open>n > 0\<close> the container, an underscore and the first \<open>n + count\<close> characters of
  the lowercased identifier, where \<open>count\<close> is the number of \<^verbatim>\<open>-\<close> among its first
  \<open>n\<close> characters. An identifier starting \<^verbatim>\<open>3a1bcd-ef01-\<close> with container
  \<^verbatim>\<open>glance\<close> and seed 3 gives \<^verbatim>\<open>glance_3a1\<close>; an identifier starting
  \<^verbatim>\<open>ab-cdef\<close> with seed 4 gives the container followed by \<^verbatim>\<open>_ab-cd\<close>.
\<close>

theorem get_swift_container_resolveContainer:
  "get_swift_container (cf\<lparr>swift_store_multiple_containers_seed := Some (int n)\<rparr>) i
     = Inr (resolveContainer i (swift_container cf) n)
   \<and> get_swift_container (cf\<lparr>swift_store_multiple_containers_seed := Some 0\<rparr>) i
     = Inr (swift_container cf)
   \<and> get_swift_container
        (cf\<lparr>swift_container := ''glance'', swift_store_multiple_containers_seed := Some 3\<rparr>)
        (''3a1bcd-ef01-'' @ rest) = Inr ''glance_3a1''
   \<and> get_swift_container (cf\<lparr>swift_store_multiple_containers_seed := Some 4\<rparr>)
        (''ab-cdef'' @ rest) = Inr (swift_container cf @ ''_ab-cd'')"
proof (intro conjI)
  show "get_swift_container (cf\<lparr>swift_store_multiple_containers_seed := Some (int n)\<rparr>) i
     = Inr (resolveContainer i (swift_container cf) n)"
    by (simp add: get_swift_container_def resolveContainer_def Let_def
        count_list_filter nat_add_distrib)
  show "get_swift_container (cf\<lparr>swift_store_multiple_containers_seed := Some 0\<rparr>) i
     = Inr (swift_container cf)"
    by (simp add: get_swift_container_def)
  have l1: "lower ''3a1bcd-ef01-'' = ''3a1bcd-ef01-''" by code_simp
  have l2: "lower ''ab-cdef'' = ''ab-cdef''" by code_simp
  have e1: "lower (''3a1bcd-ef01-'' @ rest) = ''3a1bcd-ef01-'' @ lower rest"
    by (simp only: lower_append l1)
  have e2: "lower (''ab-cdef'' @ rest) = ''ab-cdef'' @ lower rest"
    by (simp only: lower_append l2)
  show "get_swift_container
        (cf\<lparr>swift_container := ''glance'', swift_store_multiple_containers_seed := Some 3\<rparr>)
        (''3a1bcd-ef01-'' @ rest) = Inr ''glance_3a1''"
    unfolding get_swift_container_def Let_def e1
    by (simp add: eval_nat_numeral)
  show "get_swift_container (cf\<lparr>swift_store_multiple_containers_seed := Some 4\<rparr>)
        (''ab-cdef'' @ rest) = Inr (swift_container cf @ ''_ab-cd'')"
    unfolding get_swift_container_def Let_def e2
    by (simp add: eval_nat_numeral)
qed

text \<open>
  C3, as stated, fails. The identifier below has the canonical UUID layout and is
  longer than the seed 13; its first 13 characters hold one separator, so 14
  characters are taken, and the fourteenth is a separator again: the suffix has 12
  characters that are not separators, not 13.
\<close>

theorem get_swift_container_suffix_counterexample:
  "swift_store_multiple_containers_seed example_conf = Some 13
   \<and> 13 \<le> length example_uuid
   \<and> get_swift_container example_conf example_uuid
       = Inr (swift_container example_conf @ ''_'' @ ''3a1bcd4f-ef01-'')
   \<and> non_separators ''3a1bcd4f-ef01-'' = 12"
  by code_simp

text \<open>
  C3, amended. Let \<open>d\<close> be the number of separators among the first \<open>n\<close>
  characters of the lowercased identifier, for a seed \<open>n > 0\<close>. If the identifier
  has at least \<open>n + d\<close> characters and none of the \<open>d\<close> characters after the first
  \<open>n\<close> is a separator, then the suffix appended to the container has exactly \<open>n\<close>
  characters that are not separators.
\<close>

theorem get_swift_container_suffix_non_separators:
  assumes "0 < n"
    and "d = count_list (take (nat n) (lower i)) (CHR ''-'')"
    and "nat n + d \<le> length i"
    and "CHR ''-'' \<notin> set (take d (drop (nat n) (lower i)))"
  shows "\<exists>sfx. get_swift_container (cf\<lparr>swift_store_multiple_containers_seed := Some n\<rparr>) i
                 = Inr (swift_container cf @ ''_'' @ sfx)
               \<and> sfx = take (nat n + d) (lower i)
               \<and> non_separators sfx = nat n"
proof -
  let ?l = "lower i"
  have w: "non_separators (take (nat n) ?l) + d = nat n"
    using non_separators_count [of "take (nat n) ?l"] assms(2,3)
    by (simp add: length_lower)
  have e: "non_separators (take d (drop (nat n) ?l)) = d"
    using non_separators_all [OF assms(4)] assms(3) by (simp add: length_lower)
  have "non_separators (take (nat n + d) ?l) = nat n"
    using w e by (simp add: take_add non_separators_append)
  moreover have "get_swift_container (cf\<lparr>swift_store_multiple_containers_seed := Some n\<rparr>) i
                 = Inr (swift_container cf @ ''_'' @ take (nat n + d) ?l)"
    using assms(1,2) by (simp add: get_swift_container_def Let_def nat_add_distrib)
  ultimately show ?thesis by blast
qed

theorem get_swift_container_suffix_non_separators_witness:
  "\<exists>sfx. get_swift_container
           (example_conf\<lparr>swift_store_multiple_containers_seed := Some 4\<rparr>) ''AB-cdef''
           = Inr (swift_container example_conf @ ''_'' @ sfx)
         \<and> sfx = take (nat 4 + 1) (lower ''AB-cdef'')
         \<and> non_separators sfx = nat 4"
proof -
  have a: "(0::int) < 4" by simp
  have b: "(1::nat) = count_list (take (nat 4) (lower ''AB-cdef'')) (CHR ''-'')"
    by code_simp
  have c: "nat 4 + 1 \<le> length ''AB-cdef''" by simp
  have d: "CHR ''-'' \<notin> set (take 1 (drop (nat 4) (lower ''AB-cdef'')))" by code_simp
  show ?thesis by (rule get_swift_container_suffix_non_separators [OF a b c d])
qed

subsection \<open>The stages of \<^verbatim>\<open>swift_temp_url\<close>\<close>

lemma validate_seed:
  "validate_temp_url_config cf = None \<Longrightarrow>
     \<exists>n. swift_store_multiple_containers_seed cf = Some n \<and> 0 \<le> n \<and> n \<le> 32"
  by (auto simp: validate_temp_url_config_def split: if_splits option.splits)

lemma validate_container:
  "validate_temp_url_config cf = None \<Longrightarrow> \<exists>name. get_swift_container cf i = Inr name"
  by (auto simp: get_swift_container_def Let_def dest!: validate_seed)

lemma validate_None_iff:
  "(validate_temp_url_config cf = None) =
     (\<not> swift_temp_url_duration cf < swift_temp_url_expected_download_start_delay cf
      \<and> (case swift_store_multiple_containers_seed cf of
            None \<Rightarrow> False | Some n \<Rightarrow> 0 \<le> n \<and> n \<le> 32))"
  by (auto simp: validate_temp_url_config_def split: option.splits)

lemma validate_Some:
  "validate_temp_url_config cf = Some e \<Longrightarrow> e = InvalidParameterValue"
  by (auto simp: validate_temp_url_config_def split: if_splits option.splits)

lemma generate_temp_url_ret:
  "ret (generate_temp_url cf ev path seconds key method endpoint i c) \<noteq> Inl InvalidParameterValue
   \<and> ret (generate_temp_url cf ev path seconds key method endpoint i c) \<noteq> Inl ImageUnacceptable
   \<and> ret (generate_temp_url cf ev path seconds key method endpoint i c) \<noteq> Inl MissingParameterValue
   \<and> ret (generate_temp_url cf ev path seconds key method endpoint i c) \<noteq> Inl TypeError"
  by (simp add: generate_temp_url_def Let_def split: option.splits)

lemma swift_temp_url_invalid:
  "validate_temp_url_config cf = Some e \<Longrightarrow>
     swift_temp_url cf ev info c = \<lparr>ret = Inl InvalidParameterValue, cache_after = c, calls = []\<rparr>"
  by (frule validate_Some) (simp add: swift_temp_url_def)

lemma swift_temp_url_no_id:
  "validate_temp_url_config cf = None \<Longrightarrow> info ''id'' = None \<Longrightarrow>
     swift_temp_url cf ev info c = \<lparr>ret = Inl ImageUnacceptable, cache_after = c, calls = []\<rparr>"
  by (simp add: swift_temp_url_def)

lemma swift_temp_url_bad_id:
  "validate_temp_url_config cf = None \<Longrightarrow> info ''id'' = Some i \<Longrightarrow> \<not> is_uuid_like ev i \<Longrightarrow>
     swift_temp_url cf ev info c = \<lparr>ret = Inl ImageUnacceptable, cache_after = c, calls = []\<rparr>"
  by (simp add: swift_temp_url_def)

lemma swift_temp_url_staged:
  assumes "validate_temp_url_config cf = None" "info ''id'' = Some i" "is_uuid_like ev i"
    and "get_swift_container cf i = Inr container"
  shows "swift_temp_url cf ev info c =
     (if falsy (fst (endpoint_lookup cf ev))
      then \<lparr>ret = Inl MissingParameterValue, cache_after = c, calls = snd (endpoint_lookup cf ev)\<rparr>
      else if falsy (fst (key_lookup cf ev))
      then \<lparr>ret = Inl MissingParameterValue, cache_after = c,
            calls = snd (endpoint_lookup cf ev) @ snd (account_lookup cf ev) @ snd (key_lookup cf ev)\<rparr>
      else (let r = generate_temp_url cf ev
                      (''/'' @ swift_api_version cf @ ''/'' @ fst (account_lookup cf ev) @ ''/''
                         @ container @ ''/'' @ i)
                      (swift_temp_url_duration cf) (the (fst (key_lookup cf ev))) ''GET''
                      (re_sub_v1_auth (the (fst (endpoint_lookup cf ev)))) i c
            in r\<lparr>calls := snd (endpoint_lookup cf ev) @ snd (account_lookup cf ev)
                     @ snd (key_lookup cf ev) @ calls r\<rparr>))"
  using assms
  by (simp add: swift_temp_url_def endpoint_lookup_def account_lookup_def key_lookup_def
        falsy_def Let_def split: option.splits if_splits prod.splits)


lemma signings_lookups [simp]:
  "signings (snd (endpoint_lookup cf ev)) = 0"
  "signings (snd (account_lookup cf ev)) = 0"
  "signings (snd (key_lookup cf ev)) = 0"
  by (auto simp: signings_def endpoint_lookup_def account_lookup_def key_lookup_def
      split: option.splits)

lemma signings_append [simp]: "signings (xs @ ys) = signings xs + signings ys"
  by (simp add: signings_def)

lemma signings_Nil [simp]: "signings [] = 0"
  by (simp add: signings_def)

lemma swift_temp_url_cases [case_names invalid unacceptable no_endpoint no_key issue]:
  obtains
    "validate_temp_url_config cf \<noteq> None"
    "swift_temp_url cf ev info c = \<lparr>ret = Inl InvalidParameterValue, cache_after = c, calls = []\<rparr>"
  | "validate_temp_url_config cf = None"
    "case info ''id'' of None \<Rightarrow> True | Some i \<Rightarrow> \<not> is_uuid_like ev i"
    "swift_temp_url cf ev info c = \<lparr>ret = Inl ImageUnacceptable, cache_after = c, calls = []\<rparr>"
  | i where "validate_temp_url_config cf = None" "info ''id'' = Some i" "is_uuid_like ev i"
    "falsy (fst (endpoint_lookup cf ev))"
    "swift_temp_url cf ev info c =
       \<lparr>ret = Inl MissingParameterValue, cache_after = c, calls = snd (endpoint_lookup cf ev)\<rparr>"
  | i where "validate_temp_url_config cf = None" "info ''id'' = Some i" "is_uuid_like ev i"
    "\<not> falsy (fst (endpoint_lookup cf ev))" "falsy (fst (key_lookup cf ev))"
    "swift_temp_url cf ev info c =
       \<lparr>ret = Inl MissingParameterValue, cache_after = c,
        calls = snd (endpoint_lookup cf ev) @ snd (account_lookup cf ev) @ snd (key_lookup cf ev)\<rparr>"
  | i E K name g where "validate_temp_url_config cf = None" "info ''id'' = Some i" "is_uuid_like ev i"
    "fst (endpoint_lookup cf ev) = Some E" "E \<noteq> []"
    "fst (key_lookup cf ev) = Some K" "K \<noteq> []"
    "get_swift_container cf i = Inr name"
    "g = generate_temp_url cf ev (url_path cf (fst (account_lookup cf ev)) name i)
           (swift_temp_url_duration cf) K ''GET'' (re_sub_v1_auth E) i c"
    "swift_temp_url cf ev info c =
       g\<lparr>calls := snd (endpoint_lookup cf ev) @ snd (account_lookup cf ev)
          @ snd (key_lookup cf ev) @ calls g\<rparr>"
proof (cases "validate_temp_url_config cf")
  case (Some e)
  then show ?thesis using that(1) swift_temp_url_invalid by blast
next
  case None
  show ?thesis
  proof (cases "info ''id''")
    case n: None
    then show ?thesis using that(2) None swift_temp_url_no_id by simp
  next
    case (Some i)
    show ?thesis
    proof (cases "is_uuid_like ev i")
      case False
      then show ?thesis using that(2) None Some swift_temp_url_bad_id by simp
    next
      case True
      obtain name where name: "get_swift_container cf i = Inr name"
        using validate_container [OF None] by blast
      note st = swift_temp_url_staged [where info = info and c = c, OF None Some True name]
      show ?thesis
      proof (cases "falsy (fst (endpoint_lookup cf ev))")
        case ep: True
        then show ?thesis using that(3) None Some \<open>is_uuid_like ev i\<close> st by simp
      next
        case ep: False
        show ?thesis
        proof (cases "falsy (fst (key_lookup cf ev))")
          case k: True
          then show ?thesis using that(4) None Some \<open>is_uuid_like ev i\<close> ep st by simp
        next
          case k: False
          obtain E where E: "fst (endpoint_lookup cf ev) = Some E" "E \<noteq> []"
            using ep by (auto simp: falsy_def split: option.splits)
          obtain K where K: "fst (key_lookup cf ev) = Some K" "K \<noteq> []"
            using k by (auto simp: falsy_def split: option.splits)
          show ?thesis
            using that(5) [OF None Some \<open>is_uuid_like ev i\<close> E K name refl] st ep k E K
            by (simp add: Let_def url_path_def)
        qed
      qed
    qed
  qed
qed

lemma remove_expired_Some:
  "(remove_expired_items_from_cache cf ev c k = Some el)
     = (c k = Some el
        \<and> time_now ev + swift_temp_url_expected_download_start_delay cf \<le> url_expires_at el)"
  by (auto simp: remove_expired_items_from_cache_def Let_def split: option.splits)

lemma remove_expired_None:
  "c k = Some el \<Longrightarrow>
   url_expires_at el < time_now ev + swift_temp_url_expected_download_start_delay cf \<Longrightarrow>
   remove_expired_items_from_cache cf ev c k = None"
  by (simp add: remove_expired_items_from_cache_def Let_def)

lemma generate_temp_url_disabled:
  "\<not> swift_temp_url_cache_enabled cf \<Longrightarrow>
     cache_after (generate_temp_url cf ev path seconds key method endpoint i c) = c
     \<and> calls (generate_temp_url cf ev path seconds key method endpoint i c)
         = [Sign path seconds key method]"
  by (simp add: generate_temp_url_def Let_def split: option.splits)

lemma generate_temp_url_hit:
  "swift_temp_url_cache_enabled cf \<Longrightarrow>
   remove_expired_items_from_cache cf ev c i = Some el \<Longrightarrow>
     generate_temp_url cf ev path seconds key method endpoint i c
       = \<lparr>ret = Inr (url el), cache_after = remove_expired_items_from_cache cf ev c,
          calls = []\<rparr>"
  by (simp add: generate_temp_url_def Let_def)

lemma generate_temp_url_miss:
  assumes "swift_temp_url_cache_enabled cf"
    and "remove_expired_items_from_cache cf ev c i = None"
    and "g = generate_temp_url cf ev path seconds key method endpoint i c"
  shows "calls g = [Sign path seconds key method]
     \<and> (case ret g of
           Inr u \<Rightarrow> \<exists>e. cache_after g
                       = (remove_expired_items_from_cache cf ev c)
                           (i \<mapsto> \<lparr>url = u, url_expires_at = e\<rparr>)
         | Inl x \<Rightarrow> cache_after g = remove_expired_items_from_cache cf ev c)"
  using assms by (auto simp add: generate_temp_url_def Let_def split: option.splits)

lemma signings_Sign [simp]: "signings [Sign path seconds key method] = 1"
  by (simp add: signings_def)

subsection \<open>Errors\<close>

text \<open>
  C6. \<^verbatim>\<open>swift_temp_url\<close> raises \<^verbatim>\<open>InvalidParameterValue\<close> exactly when the
  duration is shorter than the expected start delay or the seed is not a number from
  0 to 32, whatever the other inputs are; it does so before any call leaves the module
  (no lookup, no signing) and with the cache as it was.
\<close>

theorem swift_temp_url_InvalidParameterValue:
  "(ret (swift_temp_url cf ev info c) = Inl InvalidParameterValue)
     = (swift_temp_url_duration cf < swift_temp_url_expected_download_start_delay cf
        \<or> (case swift_store_multiple_containers_seed cf of
              None \<Rightarrow> True | Some n \<Rightarrow> n < 0 \<or> 32 < n))
   \<and> (ret (swift_temp_url cf ev info c) = Inl InvalidParameterValue \<longrightarrow>
        cache_after (swift_temp_url cf ev info c) = c
        \<and> calls (swift_temp_url cf ev info c) = [])"
proof -
  have v: "(validate_temp_url_config cf \<noteq> None)
     = (swift_temp_url_duration cf < swift_temp_url_expected_download_start_delay cf
        \<or> (case swift_store_multiple_containers_seed cf of
              None \<Rightarrow> True | Some n \<Rightarrow> n < 0 \<or> 32 < n))"
    by (auto simp: validate_None_iff split: option.splits)
  show ?thesis
  proof (cases cf ev info c rule: swift_temp_url_cases)
    case invalid
    then show ?thesis using v by simp
  next
    case unacceptable
    then show ?thesis using v by simp
  next
    case (no_endpoint i)
    then show ?thesis using v by simp
  next
    case (no_key i)
    then show ?thesis using v by simp
  next
    case (issue i E K name g)
    have "ret g \<noteq> Inl InvalidParameterValue"
      using generate_temp_url_ret unfolding issue(9) by blast
    then show ?thesis using v issue by simp
  qed
qed

theorem swift_temp_url_InvalidParameterValue_witness:
  "swift_temp_url (example_conf\<lparr>swift_store_multiple_containers_seed := Some (- 1)\<rparr>)
       example_env example_info example_cache
     = \<lparr>ret = Inl InvalidParameterValue, cache_after = example_cache, calls = []\<rparr>
   \<and> swift_temp_url (example_conf\<lparr>swift_store_multiple_containers_seed := Some 33\<rparr>)
       example_env example_info example_cache
     = \<lparr>ret = Inl InvalidParameterValue, cache_after = example_cache, calls = []\<rparr>
   \<and> swift_temp_url (example_conf\<lparr>swift_temp_url_duration := 299\<rparr>)
       example_env example_info example_cache
     = \<lparr>ret = Inl InvalidParameterValue, cache_after = example_cache, calls = []\<rparr>
   \<and> ret (swift_temp_url example_conf example_env example_info example_cache)
       \<noteq> Inl InvalidParameterValue"
proof -
  have a: "r = \<lparr>ret = Inl InvalidParameterValue, cache_after = c, calls = []\<rparr>"
    if "ret r = Inl InvalidParameterValue" "cache_after r = c \<and> calls r = []" for r c
    using that by (cases r) simp
  let ?c1 = "example_conf\<lparr>swift_store_multiple_containers_seed := Some (- 1)\<rparr>"
  let ?c2 = "example_conf\<lparr>swift_store_multiple_containers_seed := Some 33\<rparr>"
  let ?c3 = "example_conf\<lparr>swift_temp_url_duration := 299\<rparr>"
  note t1 = swift_temp_url_InvalidParameterValue [of ?c1 example_env example_info example_cache]
  note t2 = swift_temp_url_InvalidParameterValue [of ?c2 example_env example_info example_cache]
  note t3 = swift_temp_url_InvalidParameterValue [of ?c3 example_env example_info example_cache]
  note t4 = swift_temp_url_InvalidParameterValue [of example_conf example_env example_info example_cache]
  have r1: "ret (swift_temp_url ?c1 example_env example_info example_cache) = Inl InvalidParameterValue"
    using t1 by (simp add: example_conf_def)
  have r2: "ret (swift_temp_url ?c2 example_env example_info example_cache) = Inl InvalidParameterValue"
    using t2 by (simp add: example_conf_def)
  have r3: "ret (swift_temp_url ?c3 example_env example_info example_cache) = Inl InvalidParameterValue"
    using t3 by (simp add: example_conf_def)
  have r4: "ret (swift_temp_url example_conf example_env example_info example_cache) \<noteq> Inl InvalidParameterValue"
    using t4 by (simp add: example_conf_def)
  show ?thesis using a [OF r1] a [OF r2] a [OF r3] r4 t1 t2 t3 r1 r2 r3 by blast
qed

text \<open>
  C9. With a configuration that passes the validation, \<^verbatim>\<open>swift_temp_url\<close> raises
  \<^verbatim>\<open>ImageUnacceptable\<close> exactly when the image info has no \<^verbatim>\<open>id\<close> or its
  \<^verbatim>\<open>id\<close> is not UUID-like, and then nothing has been called and the cache is as
  it was.
\<close>

theorem swift_temp_url_ImageUnacceptable:
  assumes "validate_temp_url_config cf = None"
  shows "(ret (swift_temp_url cf ev info c) = Inl ImageUnacceptable)
           = (case info ''id'' of None \<Rightarrow> True | Some i \<Rightarrow> \<not> is_uuid_like ev i)
         \<and> (ret (swift_temp_url cf ev info c) = Inl ImageUnacceptable \<longrightarrow>
              cache_after (swift_temp_url cf ev info c) = c
              \<and> calls (swift_temp_url cf ev info c) = [])"
proof (cases cf ev info c rule: swift_temp_url_cases)
  case invalid
  then show ?thesis using assms by simp
next
  case unacceptable
  then show ?thesis by simp
next
  case (no_endpoint i)
  then show ?thesis by simp
next
  case (no_key i)
  then show ?thesis by simp
next
  case (issue i E K name g)
  have "ret g \<noteq> Inl ImageUnacceptable"
    using generate_temp_url_ret unfolding issue(9) by blast
  then show ?thesis using issue by simp
qed

lemma example_conf_valid: "validate_temp_url_config example_conf = None"
  by (simp add: validate_temp_url_config_def example_conf_def)

theorem swift_temp_url_ImageUnacceptable_witness:
  "ret (swift_temp_url example_conf example_env [''name'' \<mapsto> ''cirros''] example_cache)
     = Inl ImageUnacceptable
   \<and> cache_after (swift_temp_url example_conf example_env [''name'' \<mapsto> ''cirros''] example_cache)
     = example_cache
   \<and> calls (swift_temp_url example_conf example_env [''name'' \<mapsto> ''cirros''] example_cache) = []
   \<and> ret (swift_temp_url example_conf example_env [''id'' \<mapsto> ''cirros''] example_cache)
     = Inl ImageUnacceptable
   \<and> ret (swift_temp_url example_conf example_env example_info example_cache)
     \<noteq> Inl ImageUnacceptable"
proof -
  note t1 = swift_temp_url_ImageUnacceptable [OF example_conf_valid,
      of example_env "[''name'' \<mapsto> ''cirros'']" example_cache]
  note t2 = swift_temp_url_ImageUnacceptable [OF example_conf_valid,
      of example_env "[''id'' \<mapsto> ''cirros'']" example_cache]
  note t3 = swift_temp_url_ImageUnacceptable [OF example_conf_valid,
      of example_env example_info example_cache]
  have r1: "ret (swift_temp_url example_conf example_env [''name'' \<mapsto> ''cirros''] example_cache)
     = Inl ImageUnacceptable"
    using t1 by simp
  have r2: "ret (swift_temp_url example_conf example_env [''id'' \<mapsto> ''cirros''] example_cache)
     = Inl ImageUnacceptable"
    using t2 by (simp add: example_env_def)
  have r3: "ret (swift_temp_url example_conf example_env example_info example_cache)
     \<noteq> Inl ImageUnacceptable"
    using t3 by (simp add: example_env_def example_info_def example_uuid_def)
  show ?thesis using r1 r2 r3 t1 by blast
qed

text \<open>
  C8. When \<^verbatim>\<open>swift_temp_url\<close> raises \<^verbatim>\<open>InvalidParameterValue\<close>,
  \<^verbatim>\<open>ImageUnacceptable\<close> or \<^verbatim>\<open>MissingParameterValue\<close>, the signing primitive has
  not been called and the cache is what it was before the call. After any call, an
  entry of the cache either was there before the call, or it belongs to the requested
  image and holds the URL that this call has signed and returned.
\<close>

theorem swift_temp_url_failure_keeps_cache:
  assumes "r = swift_temp_url cf ev info c"
  shows "(ret r = Inl InvalidParameterValue \<or> ret r = Inl ImageUnacceptable
            \<or> ret r = Inl MissingParameterValue \<longrightarrow>
          cache_after r = c \<and> signings (calls r) = 0)
       \<and> (\<forall>k el. cache_after r k = Some el \<longrightarrow>
            c k = Some el
            \<or> (info ''id'' = Some k \<and> ret r = Inr (url el) \<and> signings (calls r) = 1))"
proof (cases cf ev info c rule: swift_temp_url_cases)
  case invalid
  then show ?thesis using assms by simp
next
  case unacceptable
  then show ?thesis using assms by simp
next
  case (no_endpoint i)
  then show ?thesis using assms by simp
next
  case (no_key i)
  then show ?thesis using assms by simp
next
  case (issue i E K name g)
  have r: "ret r = ret g" "cache_after r = cache_after g" "signings (calls r) = signings (calls g)"
    using issue(10) assms by simp_all
  have a: "ret g \<noteq> Inl InvalidParameterValue \<and> ret g \<noteq> Inl ImageUnacceptable
           \<and> ret g \<noteq> Inl MissingParameterValue"
    using generate_temp_url_ret unfolding issue(9) by blast
  have b: "c k = Some el \<or> (i = k \<and> ret g = Inr (url el) \<and> signings (calls g) = 1)"
    if h: "cache_after g k = Some el" for k el
  proof (cases "swift_temp_url_cache_enabled cf")
    case False
    then show ?thesis using h generate_temp_url_disabled unfolding issue(9) by simp
  next
    case True
    show ?thesis
    proof (cases "remove_expired_items_from_cache cf ev c i")
      case (Some el')
      have "g = \<lparr>ret = Inr (url el'), cache_after = remove_expired_items_from_cache cf ev c,
          calls = []\<rparr>"
        unfolding issue(9) by (rule generate_temp_url_hit [OF True Some])
      then show ?thesis using h by (simp add: remove_expired_Some)
    next
      case None
      note m = generate_temp_url_miss [OF True None issue(9)]
      show ?thesis
      proof (cases "ret g")
        case (Inl x)
        then show ?thesis using m h by (simp add: remove_expired_Some)
      next
        case (Inr u)
        then obtain e where "cache_after g
             = (remove_expired_items_from_cache cf ev c)(i \<mapsto> \<lparr>url = u, url_expires_at = e\<rparr>)"
          using m by auto
        then show ?thesis using h m Inr
          by (cases "k = i") (auto simp: remove_expired_Some)
      qed
    qed
  qed
  show ?thesis using r a b issue(2) by auto
qed

theorem swift_temp_url_failure_keeps_cache_witness:
  "cache_after (swift_temp_url (example_conf\<lparr>swift_temp_url_key := None\<rparr>)
       (example_env\<lparr>head_account_temp_url_key := None\<rparr>) example_info example_cache)
     = example_cache
   \<and> signings (calls (swift_temp_url (example_conf\<lparr>swift_temp_url_key := None\<rparr>)
       (example_env\<lparr>head_account_temp_url_key := None\<rparr>) example_info example_cache)) = 0
   \<and> example_info ''id'' = Some example_uuid
   \<and> ret (swift_temp_url example_conf example_env example_info example_cache)
       = Inr (url (the (cache_after
           (swift_temp_url example_conf example_env example_info example_cache) example_uuid)))
   \<and> signings (calls (swift_temp_url example_conf example_env example_info example_cache)) = 1"
proof -
  let ?r1 = "swift_temp_url (example_conf\<lparr>swift_temp_url_key := None\<rparr>)
       (example_env\<lparr>head_account_temp_url_key := None\<rparr>) example_info example_cache"
  let ?r2 = "swift_temp_url example_conf example_env example_info example_cache"
  let ?el = "\<lparr>url = ''https://swift.example.com:8080/v1/AUTH_a422b2/glance_3a1bcd4f-ef01-/3a1bcd4f-ef01-4a2b-8c3d-0123456789ab?temp_url_sig=5e1f&temp_url_expires=2200'', url_expires_at = 2200\<rparr>"
  have f: "ret ?r1 = Inl MissingParameterValue" by code_simp
  have e: "cache_after ?r2 example_uuid = Some ?el" by code_simp
  have n: "example_cache example_uuid = None" by code_simp
  from swift_temp_url_failure_keeps_cache [OF refl, of "example_conf\<lparr>swift_temp_url_key := None\<rparr>"
      "example_env\<lparr>head_account_temp_url_key := None\<rparr>" example_info example_cache] f
  have 1: "cache_after ?r1 = example_cache \<and> signings (calls ?r1) = 0" by simp
  from swift_temp_url_failure_keeps_cache [OF refl, of example_conf example_env example_info
      example_cache] e n
  have 2: "example_info ''id'' = Some example_uuid \<and> ret ?r2 = Inr (url ?el)
      \<and> signings (calls ?r2) = 1"
    by fastforce
  show ?thesis using 1 2 e by simp
qed

text \<open>
  C7. With a valid configuration and an acceptable image id: when no endpoint is
  configured and the service catalog gives none, \<^verbatim>\<open>swift_temp_url\<close> raises
  \<^verbatim>\<open>MissingParameterValue\<close> after asking the catalog once, whatever the key is;
  when an endpoint is found, no key is configured and the account metadata gives none,
  it raises \<^verbatim>\<open>MissingParameterValue\<close> after asking the account once. Neither
  lookup is repeated, nothing is signed and the cache is as it was.
\<close>

theorem swift_temp_url_MissingParameterValue:
  assumes "validate_temp_url_config cf = None"
    and "info ''id'' = Some i"
    and "is_uuid_like ev i"
  shows "(falsy (swift_endpoint_url cf) \<and> falsy (get_endpoint ev) \<longrightarrow>
            swift_temp_url cf ev info c
              = \<lparr>ret = Inl MissingParameterValue, cache_after = c, calls = [GetEndpoint]\<rparr>)
       \<and> ((\<not> falsy (swift_endpoint_url cf) \<or> \<not> falsy (get_endpoint ev))
            \<and> falsy (swift_temp_url_key cf) \<and> falsy (head_account_temp_url_key ev) \<longrightarrow>
            swift_temp_url cf ev info c
              = \<lparr>ret = Inl MissingParameterValue, cache_after = c,
                 calls = (if falsy (swift_endpoint_url cf) then [GetEndpoint] else [])
                   @ (if falsy (swift_account cf) then [GetAuthRef] else [])
                   @ [HeadAccount]\<rparr>)"
proof -
  have ep: "falsy (fst (endpoint_lookup cf ev))
              = (falsy (swift_endpoint_url cf) \<and> falsy (get_endpoint ev))"
    by (simp add: endpoint_lookup_def)
  have k: "falsy (fst (key_lookup cf ev))
              = (falsy (swift_temp_url_key cf) \<and> falsy (head_account_temp_url_key ev))"
    by (simp add: key_lookup_def)
  have tr: "falsy (swift_temp_url_key cf) \<Longrightarrow>
      snd (endpoint_lookup cf ev) @ snd (account_lookup cf ev) @ snd (key_lookup cf ev)
        = (if falsy (swift_endpoint_url cf) then [GetEndpoint] else [])
           @ (if falsy (swift_account cf) then [GetAuthRef] else []) @ [HeadAccount]"
    by (simp add: endpoint_lookup_def account_lookup_def key_lookup_def falsy_def
        split: option.splits)
  show ?thesis
  proof (cases cf ev info c rule: swift_temp_url_cases)
    case invalid
    then show ?thesis using assms by simp
  next
    case unacceptable
    then show ?thesis using assms by simp
  next
    case (no_endpoint j)
    then show ?thesis using ep by (simp add: endpoint_lookup_def)
  next
    case (no_key j)
    then show ?thesis using ep k tr by simp
  next
    case (issue j E K name g)
    have "\<not> falsy (fst (endpoint_lookup cf ev))" "\<not> falsy (fst (key_lookup cf ev))"
      using issue(4-7) by (simp_all add: falsy_def)
    then show ?thesis using ep k by blast
  qed
qed

theorem swift_temp_url_MissingParameterValue_witness:
  "swift_temp_url (example_conf\<lparr>swift_endpoint_url := None\<rparr>)
       (example_env\<lparr>get_endpoint := None\<rparr>) example_info example_cache
     = \<lparr>ret = Inl MissingParameterValue, cache_after = example_cache, calls = [GetEndpoint]\<rparr>
   \<and> swift_temp_url (example_conf\<lparr>swift_temp_url_key := Some []\<rparr>)
       (example_env\<lparr>head_account_temp_url_key := None\<rparr>) example_info example_cache
     = \<lparr>ret = Inl MissingParameterValue, cache_after = example_cache, calls = [HeadAccount]\<rparr>"
proof -
  have i: "example_info ''id'' = Some example_uuid" by (simp add: example_info_def)
  have u: "is_uuid_like example_env example_uuid" by (simp add: example_env_def example_uuid_def)
  have v1: "validate_temp_url_config (example_conf\<lparr>swift_endpoint_url := None\<rparr>) = None"
    by (simp add: validate_temp_url_config_def example_conf_def)
  have v2: "validate_temp_url_config (example_conf\<lparr>swift_temp_url_key := Some []\<rparr>) = None"
    by (simp add: validate_temp_url_config_def example_conf_def)
  have u1: "is_uuid_like (example_env\<lparr>get_endpoint := None\<rparr>) example_uuid" using u by simp
  have u2: "is_uuid_like (example_env\<lparr>head_account_temp_url_key := None\<rparr>) example_uuid"
    using u by simp
  show ?thesis
    using swift_temp_url_MissingParameterValue [where info = example_info and c = example_cache, OF v1 i u1]
      swift_temp_url_MissingParameterValue [where info = example_info and c = example_cache, OF v2 i u2]
    by (simp add: falsy_def example_conf_def)
qed

subsection \<open>The cache\<close>

lemma swift_temp_url_success:
  assumes "ret (swift_temp_url cf ev info c) \<noteq> Inl InvalidParameterValue"
    and "ret (swift_temp_url cf ev info c) \<noteq> Inl ImageUnacceptable"
    and "ret (swift_temp_url cf ev info c) \<noteq> Inl MissingParameterValue"
  obtains i E K name g where
    "validate_temp_url_config cf = None" "info ''id'' = Some i" "is_uuid_like ev i"
    "fst (endpoint_lookup cf ev) = Some E" "E \<noteq> []"
    "fst (key_lookup cf ev) = Some K" "K \<noteq> []"
    "get_swift_container cf i = Inr name"
    "g = generate_temp_url cf ev (url_path cf (fst (account_lookup cf ev)) name i)
           (swift_temp_url_duration cf) K ''GET'' (re_sub_v1_auth E) i c"
    "ret (swift_temp_url cf ev info c) = ret g"
    "cache_after (swift_temp_url cf ev info c) = cache_after g"
    "signings (calls (swift_temp_url cf ev info c)) = signings (calls g)"
proof (cases cf ev info c rule: swift_temp_url_cases)
  case invalid
  then show ?thesis using assms by simp
next
  case unacceptable
  then show ?thesis using assms by simp
next
  case (no_endpoint i)
  then show ?thesis using assms by simp
next
  case (no_key i)
  then show ?thesis using assms by simp
next
  case (issue i E K name g)
  show ?thesis
    by (rule that [OF issue(1-9)]) (simp_all add: issue(10))
qed

lemma swift_temp_url_reaches:
  assumes "validate_temp_url_config cf = None" "info ''id'' = Some i" "is_uuid_like ev i"
    and "fst (endpoint_lookup cf ev) = Some E" "E \<noteq> []"
    and "fst (key_lookup cf ev) = Some K" "K \<noteq> []"
  obtains name g where
    "get_swift_container cf i = Inr name"
    "g = generate_temp_url cf ev (url_path cf (fst (account_lookup cf ev)) name i)
           (swift_temp_url_duration cf) K ''GET'' (re_sub_v1_auth E) i c"
    "ret (swift_temp_url cf ev info c) = ret g"
    "cache_after (swift_temp_url cf ev info c) = cache_after g"
    "signings (calls (swift_temp_url cf ev info c)) = signings (calls g)"
proof (cases cf ev info c rule: swift_temp_url_cases)
  case invalid
  then show ?thesis using assms by simp
next
  case unacceptable
  then show ?thesis using assms by simp
next
  case (no_endpoint j)
  then show ?thesis using assms by (simp add: falsy_def)
next
  case (no_key j)
  then show ?thesis using assms by (simp add: falsy_def)
next
  case (issue j E' K' name g)
  have "j = i" "E' = E" "K' = K" using issue assms by simp_all
  then show ?thesis using that [of name g] issue by simp
qed

text \<open>
  C5. Let a cache-enabled call for an image return a URL. Then the cache holds an
  entry for the image with that URL; and a second call for the same image, with the
  same configuration and the same answers of Keystone and Swift, made while the
  current time plus the expected start delay has not passed the entry's expiry,
  returns the same URL, does not call the signing primitive, and leaves the entry as
  it is.
\<close>

theorem swift_temp_url_cache_reuse:
  assumes en: "swift_temp_url_cache_enabled cf"
    and id: "info ''id'' = Some i"
    and r1: "r1 = swift_temp_url cf ev info c0"
    and ok: "ret r1 = Inr u"
    and same: "is_uuid_like ev' = is_uuid_like ev" "get_endpoint ev' = get_endpoint ev"
      "head_account_temp_url_key ev' = head_account_temp_url_key ev"
    and r2: "r2 = swift_temp_url cf ev' info (cache_after r1)"
  shows "\<exists>el. cache_after r1 i = Some el \<and> url el = u
           \<and> (time_now ev' + swift_temp_url_expected_download_start_delay cf \<le> url_expires_at el
                \<longrightarrow> ret r2 = Inr u \<and> signings (calls r2) = 0 \<and> cache_after r2 i = Some el)"
proof -
  have ne: "ret (swift_temp_url cf ev info c0) \<noteq> Inl InvalidParameterValue"
    "ret (swift_temp_url cf ev info c0) \<noteq> Inl ImageUnacceptable"
    "ret (swift_temp_url cf ev info c0) \<noteq> Inl MissingParameterValue"
    using ok r1 by simp_all
  from ne obtain j E K name g where s:
    "validate_temp_url_config cf = None" "info ''id'' = Some j" "is_uuid_like ev j"
    "fst (endpoint_lookup cf ev) = Some E" "E \<noteq> []"
    "fst (key_lookup cf ev) = Some K" "K \<noteq> []"
    "get_swift_container cf j = Inr name"
    "g = generate_temp_url cf ev (url_path cf (fst (account_lookup cf ev)) name j)
           (swift_temp_url_duration cf) K ''GET'' (re_sub_v1_auth E) j c0"
    "ret (swift_temp_url cf ev info c0) = ret g"
    "cache_after (swift_temp_url cf ev info c0) = cache_after g"
    by (rule swift_temp_url_success)
  have ji: "j = i" using s(2) id by simp
  have g: "ret g = Inr u" "cache_after r1 = cache_after g" using s(10,11) r1 ok by simp_all
  have "\<exists>el. cache_after g i = Some el \<and> url el = u"
  proof (cases "remove_expired_items_from_cache cf ev c0 i")
    case (Some el)
    have "g = \<lparr>ret = Inr (url el), cache_after = remove_expired_items_from_cache cf ev c0,
          calls = []\<rparr>"
      unfolding s(9) ji by (rule generate_temp_url_hit [OF en Some])
    then show ?thesis using g Some by simp
  next
    case None
    from generate_temp_url_miss [OF en None s(9) [unfolded ji]] g show ?thesis by auto
  qed
  then obtain el where el: "cache_after r1 i = Some el" "url el = u" using g by auto
  have "ret r2 = Inr u \<and> signings (calls r2) = 0 \<and> cache_after r2 i = Some el"
    if t: "time_now ev' + swift_temp_url_expected_download_start_delay cf \<le> url_expires_at el"
  proof -
    have l: "endpoint_lookup cf ev' = endpoint_lookup cf ev" "key_lookup cf ev' = key_lookup cf ev"
      using same by (simp_all add: endpoint_lookup_def key_lookup_def)
    have u2: "is_uuid_like ev' i" using s(3) same ji by simp
    obtain name2 g2 where s2:
      "g2 = generate_temp_url cf ev' (url_path cf (fst (account_lookup cf ev')) name2 i)
           (swift_temp_url_duration cf) K ''GET'' (re_sub_v1_auth E) i (cache_after r1)"
      "ret (swift_temp_url cf ev' info (cache_after r1)) = ret g2"
      "cache_after (swift_temp_url cf ev' info (cache_after r1)) = cache_after g2"
      "signings (calls (swift_temp_url cf ev' info (cache_after r1))) = signings (calls g2)"
      using swift_temp_url_reaches [where info = info and c = "cache_after r1",
          OF s(1) id u2 s(4) [folded l(1)] s(5) s(6) [folded l(2)] s(7)]
      by metis
    have h: "remove_expired_items_from_cache cf ev' (cache_after r1) i = Some el"
      using el t by (simp add: remove_expired_Some)
    have "g2 = \<lparr>ret = Inr (url el),
        cache_after = remove_expired_items_from_cache cf ev' (cache_after r1), calls = []\<rparr>"
      unfolding s2(1) by (rule generate_temp_url_hit [OF en h])
    then show ?thesis using s2 r2 el h by simp
  qed
  then show ?thesis using el by blast
qed

theorem swift_temp_url_cache_reuse_witness:
  "\<exists>el. cache_after (swift_temp_url example_conf example_env example_info example_cache)
          example_uuid = Some el
     \<and> url el = example_new_url
     \<and> ret (swift_temp_url example_conf
           (example_env\<lparr>time_now := 1900,
              swift_utils_generate_temp_url := (\<lambda>path seconds key method. None)\<rparr>)
           example_info
           (cache_after (swift_temp_url example_conf example_env example_info example_cache)))
         = Inr example_new_url
     \<and> signings (calls (swift_temp_url example_conf
           (example_env\<lparr>time_now := 1900,
              swift_utils_generate_temp_url := (\<lambda>path seconds key method. None)\<rparr>)
           example_info
           (cache_after (swift_temp_url example_conf example_env example_info example_cache))))
         = 0
     \<and> cache_after (swift_temp_url example_conf
           (example_env\<lparr>time_now := 1900,
              swift_utils_generate_temp_url := (\<lambda>path seconds key method. None)\<rparr>)
           example_info
           (cache_after (swift_temp_url example_conf example_env example_info example_cache)))
         example_uuid = Some el"
proof -
  let ?u = "example_new_url"
  let ?r1 = "swift_temp_url example_conf example_env example_info example_cache"
  let ?ev2 = "example_env\<lparr>time_now := 1900,
              swift_utils_generate_temp_url := (\<lambda>path seconds key method. None)\<rparr>"
  have en: "swift_temp_url_cache_enabled example_conf" by (simp add: example_conf_def)
  have id: "example_info ''id'' = Some example_uuid" by (simp add: example_info_def)
  have ok: "ret ?r1 = Inr ?u" by code_simp
  have e: "cache_after ?r1 example_uuid = Some \<lparr>url = ?u, url_expires_at = 2200\<rparr>"
    by code_simp
  have d: "time_now ?ev2 + swift_temp_url_expected_download_start_delay example_conf \<le> 2200"
    by (simp add: example_conf_def)
  from swift_temp_url_cache_reuse [where info = example_info and ev' = ?ev2,
      OF en id refl ok _ _ _ refl]
  obtain el where el: "cache_after ?r1 example_uuid = Some el" "url el = ?u"
    "time_now ?ev2 + swift_temp_url_expected_download_start_delay example_conf \<le> url_expires_at el
      \<longrightarrow> ret (swift_temp_url example_conf ?ev2 example_info (cache_after ?r1)) = Inr ?u
        \<and> signings (calls (swift_temp_url example_conf ?ev2 example_info (cache_after ?r1))) = 0
        \<and> cache_after (swift_temp_url example_conf ?ev2 example_info (cache_after ?r1))
             example_uuid = Some el"
    by auto
  have "el = \<lparr>url = ?u, url_expires_at = 2200\<rparr>" using el(1) e by simp
  then have "url_expires_at el = 2200" by simp
  then show ?thesis using el d by auto
qed

text \<open>
  C1, as stated, fails. First, with the clock at 1000 and a start delay of 300, an
  entry expiring at 1300 is returned from the cache without signing, although 1300 is
  not strictly greater than 1000 + 300. Second, a request with no signing key fails
  before the cache is looked at: an entry expiring at 1100 stays in the cache and
  nothing is signed.
\<close>

theorem swift_temp_url_cached_entry_counterexample:
  "swift_temp_url_cache_enabled example_conf
   \<and> time_now example_env + swift_temp_url_expected_download_start_delay example_conf = 1300
   \<and> cached_until 1300 example_uuid = Some \<lparr>url = example_old_url, url_expires_at = 1300\<rparr>
   \<and> ret (swift_temp_url example_conf example_env example_info (cached_until 1300))
       = Inr example_old_url
   \<and> signings (calls (swift_temp_url example_conf example_env example_info (cached_until 1300)))
       = 0
   \<and> cached_until 1100 example_uuid = Some \<lparr>url = example_old_url, url_expires_at = 1100\<rparr>
   \<and> ret (swift_temp_url (example_conf\<lparr>swift_temp_url_key := None\<rparr>)
         (example_env\<lparr>head_account_temp_url_key := None\<rparr>) example_info (cached_until 1100))
       = Inl MissingParameterValue
   \<and> cache_after (swift_temp_url (example_conf\<lparr>swift_temp_url_key := None\<rparr>)
         (example_env\<lparr>head_account_temp_url_key := None\<rparr>) example_info (cached_until 1100))
         example_uuid = Some \<lparr>url = example_old_url, url_expires_at = 1100\<rparr>
   \<and> signings (calls (swift_temp_url (example_conf\<lparr>swift_temp_url_key := None\<rparr>)
         (example_env\<lparr>head_account_temp_url_key := None\<rparr>) example_info (cached_until 1100)))
       = 0"
  by code_simp

text \<open>
  C1, amended. With the cache enabled: a URL returned without signing is the URL of
  the requested image's cache entry, and that entry's expiry is greater than or equal
  to the current time plus the expected start delay. And when a request that passes
  the validation, the identifier check and the credential lookups finds an entry whose
  expiry is less than the current time plus the expected start delay, the entry is
  removed, the signing primitive is called once, and the cache afterwards holds the
  freshly signed URL for the image, or nothing if the signer or the reading of its
  expiry failed.
\<close>

theorem swift_temp_url_cached_entry_usable:
  assumes en: "swift_temp_url_cache_enabled cf"
    and r: "r = swift_temp_url cf ev info c"
  shows "(\<forall>u. ret r = Inr u \<and> signings (calls r) = 0 \<longrightarrow>
            (\<exists>i el. info ''id'' = Some i \<and> c i = Some el \<and> url el = u
               \<and> time_now ev + swift_temp_url_expected_download_start_delay cf
                    \<le> url_expires_at el))
       \<and> (\<forall>i el. info ''id'' = Some i \<and> c i = Some el
              \<and> url_expires_at el
                   < time_now ev + swift_temp_url_expected_download_start_delay cf
              \<and> ret r \<noteq> Inl InvalidParameterValue \<and> ret r \<noteq> Inl ImageUnacceptable
              \<and> ret r \<noteq> Inl MissingParameterValue \<longrightarrow>
            signings (calls r) = 1
            \<and> remove_expired_items_from_cache cf ev c i = None
            \<and> (case ret r of
                  Inr u \<Rightarrow> \<exists>e. cache_after r i = Some \<lparr>url = u, url_expires_at = e\<rparr>
                | Inl x \<Rightarrow> cache_after r i = None))"
proof -
  have A: "\<exists>i el. info ''id'' = Some i \<and> c i = Some el \<and> url el = u
      \<and> time_now ev + swift_temp_url_expected_download_start_delay cf \<le> url_expires_at el"
    if a: "ret r = Inr u \<and> signings (calls r) = 0" for u
  proof -
    have ne: "ret (swift_temp_url cf ev info c) \<noteq> Inl InvalidParameterValue"
      "ret (swift_temp_url cf ev info c) \<noteq> Inl ImageUnacceptable"
      "ret (swift_temp_url cf ev info c) \<noteq> Inl MissingParameterValue"
      using a r by simp_all
    from ne obtain i E K name g where s:
      "info ''id'' = Some i"
      "g = generate_temp_url cf ev (url_path cf (fst (account_lookup cf ev)) name i)
             (swift_temp_url_duration cf) K ''GET'' (re_sub_v1_auth E) i c"
      "ret (swift_temp_url cf ev info c) = ret g"
      "signings (calls (swift_temp_url cf ev info c)) = signings (calls g)"
      by (rule swift_temp_url_success)
    have g: "ret g = Inr u" "signings (calls g) = 0" using a r s(3,4) by simp_all
    show ?thesis
    proof (cases "remove_expired_items_from_cache cf ev c i")
      case None
      from generate_temp_url_miss [OF en None s(2)] g show ?thesis by simp
    next
      case (Some el)
      have "g = \<lparr>ret = Inr (url el), cache_after = remove_expired_items_from_cache cf ev c,
            calls = []\<rparr>"
        unfolding s(2) by (rule generate_temp_url_hit [OF en Some])
      then have "url el = u" using g by simp
      then show ?thesis using Some s(1) remove_expired_Some [of cf ev c i el] by blast
    qed
  qed
  have B: "signings (calls r) = 1
     \<and> remove_expired_items_from_cache cf ev c i = None
     \<and> (case ret r of
          Inr u \<Rightarrow> \<exists>e. cache_after r i = Some \<lparr>url = u, url_expires_at = e\<rparr>
        | Inl x \<Rightarrow> cache_after r i = None)"
    if a: "info ''id'' = Some i \<and> c i = Some el
      \<and> url_expires_at el < time_now ev + swift_temp_url_expected_download_start_delay cf
      \<and> ret r \<noteq> Inl InvalidParameterValue \<and> ret r \<noteq> Inl ImageUnacceptable
      \<and> ret r \<noteq> Inl MissingParameterValue" for i el
  proof -
    have ne: "ret (swift_temp_url cf ev info c) \<noteq> Inl InvalidParameterValue"
      "ret (swift_temp_url cf ev info c) \<noteq> Inl ImageUnacceptable"
      "ret (swift_temp_url cf ev info c) \<noteq> Inl MissingParameterValue"
      using a r by simp_all
    from ne obtain j E K name g where s:
      "info ''id'' = Some j"
      "g = generate_temp_url cf ev (url_path cf (fst (account_lookup cf ev)) name j)
             (swift_temp_url_duration cf) K ''GET'' (re_sub_v1_auth E) j c"
      "ret (swift_temp_url cf ev info c) = ret g"
      "cache_after (swift_temp_url cf ev info c) = cache_after g"
      "signings (calls (swift_temp_url cf ev info c)) = signings (calls g)"
      by (rule swift_temp_url_success)
    have ji: "j = i" using s(1) a by simp
    have rr: "ret r = ret g" "cache_after r = cache_after g"
      "signings (calls r) = signings (calls g)"
      using r s(3,4,5) by simp_all
    have n: "remove_expired_items_from_cache cf ev c i = None"
      using a by (simp add: remove_expired_None)
    note m = generate_temp_url_miss [OF en n s(2) [unfolded ji]]
    have sg: "signings (calls g) = 1" using m by simp
    have cg: "case ret g of
          Inr u \<Rightarrow> \<exists>e. cache_after g i = Some \<lparr>url = u, url_expires_at = e\<rparr>
        | Inl x \<Rightarrow> cache_after g i = None"
    proof (cases "ret g")
      case (Inl x)
      then show ?thesis using m n by simp
    next
      case (Inr u)
      then obtain e where "cache_after g = (remove_expired_items_from_cache cf ev c)
          (i \<mapsto> \<lparr>url = u, url_expires_at = e\<rparr>)"
        using m by auto
      then have "cache_after g i = Some \<lparr>url = u, url_expires_at = e\<rparr>" by simp
      then show ?thesis using Inr by auto
    qed
    show ?thesis unfolding rr using sg n cg by simp
  qed
  show ?thesis using A B by blast
qed

theorem swift_temp_url_cached_entry_usable_witness:
  "(\<exists>i el. example_info ''id'' = Some i \<and> cached_until 1300 i = Some el
      \<and> url el = example_old_url
      \<and> time_now example_env + swift_temp_url_expected_download_start_delay example_conf
           \<le> url_expires_at el)
   \<and> signings (calls (swift_temp_url example_conf example_env example_info (cached_until 1299)))
       = 1
   \<and> remove_expired_items_from_cache example_conf example_env (cached_until 1299) example_uuid
       = None
   \<and> (\<exists>e. cache_after (swift_temp_url example_conf example_env example_info (cached_until 1299))
           example_uuid = Some \<lparr>url = example_new_url, url_expires_at = e\<rparr>)"
proof -
  let ?ra = "swift_temp_url example_conf example_env example_info (cached_until 1300)"
  let ?rb = "swift_temp_url example_conf example_env example_info (cached_until 1299)"
  have en: "swift_temp_url_cache_enabled example_conf" by (simp add: example_conf_def)
  have a: "ret ?ra = Inr example_old_url \<and> signings (calls ?ra) = 0" by code_simp
  have b: "example_info ''id'' = Some example_uuid
      \<and> cached_until 1299 example_uuid = Some \<lparr>url = example_old_url, url_expires_at = 1299\<rparr>
      \<and> url_expires_at \<lparr>url = example_old_url, url_expires_at = 1299\<rparr>
           < time_now example_env + swift_temp_url_expected_download_start_delay example_conf
      \<and> ret ?rb \<noteq> Inl InvalidParameterValue \<and> ret ?rb \<noteq> Inl ImageUnacceptable
      \<and> ret ?rb \<noteq> Inl MissingParameterValue"
    by code_simp
  have u: "ret ?rb = Inr example_new_url" by code_simp
  from swift_temp_url_cached_entry_usable [OF en refl, of example_env example_info
      "cached_until 1300"] a
  have 1: "\<exists>i el. example_info ''id'' = Some i \<and> cached_until 1300 i = Some el
      \<and> url el = example_old_url
      \<and> time_now example_env + swift_temp_url_expected_download_start_delay example_conf
           \<le> url_expires_at el"
    by blast
  from swift_temp_url_cached_entry_usable [OF en refl, of example_env example_info
      "cached_until 1299"] b
  have 2: "signings (calls ?rb) = 1
     \<and> remove_expired_items_from_cache example_conf example_env (cached_until 1299) example_uuid
         = None
     \<and> (case ret ?rb of
          Inr u \<Rightarrow> \<exists>e. cache_after ?rb example_uuid = Some \<lparr>url = u, url_expires_at = e\<rparr>
        | Inl x \<Rightarrow> cache_after ?rb example_uuid = None)"
    by blast
  show ?thesis using 1 2 u by simp
qed

text \<open>
  C4, as stated, fails. First, a cache-enabled call with no signing key fails before
  the cache is scanned, and an entry expiring at 1100 is still in the cache at time
  1000 with a start delay of 300. Second, when the signer stamps the expiry 1200 (its
  clock being behind), the entry that a successful call inserts expires before
  1000 + 300.
\<close>

theorem swift_temp_url_eviction_counterexample:
  "swift_temp_url_cache_enabled example_conf
   \<and> time_now example_env + swift_temp_url_expected_download_start_delay example_conf = 1300
   \<and> ret (swift_temp_url (example_conf\<lparr>swift_temp_url_key := None\<rparr>)
         (example_env\<lparr>head_account_temp_url_key := None\<rparr>) example_info (cached_until 1100))
       = Inl MissingParameterValue
   \<and> cache_after (swift_temp_url (example_conf\<lparr>swift_temp_url_key := None\<rparr>)
         (example_env\<lparr>head_account_temp_url_key := None\<rparr>) example_info (cached_until 1100))
         example_uuid = Some \<lparr>url = example_old_url, url_expires_at = 1100\<rparr>
   \<and> time_now example_slow_env = time_now example_env
   \<and> ret (swift_temp_url example_conf example_slow_env
         example_info Map.empty) = Inr example_slow_url
   \<and> cache_after (swift_temp_url example_conf example_slow_env
         example_info Map.empty) example_uuid
       = Some \<lparr>url = example_slow_url, url_expires_at = 1200\<rparr>"
  by code_simp

text \<open>
  C4, amended. On a cache-enabled call that passes the validation, the identifier
  check and the credential lookups: for every image other than the requested one the
  cache afterwards holds the old entry if its expiry is not earlier than the current
  time plus the expected start delay, and nothing otherwise; and an entry that is in
  the cache afterwards with an earlier expiry can only be the one that this very call
  has signed for the requested image, with the expiry that the signer stamped.
\<close>

theorem swift_temp_url_eviction:
  assumes en: "swift_temp_url_cache_enabled cf"
    and r: "r = swift_temp_url cf ev info c"
    and ne: "ret r \<noteq> Inl InvalidParameterValue" "ret r \<noteq> Inl ImageUnacceptable"
      "ret r \<noteq> Inl MissingParameterValue"
  shows "(\<forall>k. info ''id'' \<noteq> Some k \<longrightarrow>
            cache_after r k
              = (case c k of
                   None \<Rightarrow> None
                 | Some el \<Rightarrow>
                     if url_expires_at el
                          < time_now ev + swift_temp_url_expected_download_start_delay cf
                     then None else Some el))
       \<and> (\<forall>k el. cache_after r k = Some el
              \<and> url_expires_at el
                   < time_now ev + swift_temp_url_expected_download_start_delay cf \<longrightarrow>
            info ''id'' = Some k \<and> ret r = Inr (url el) \<and> signings (calls r) = 1)"
proof -
  have ne': "ret (swift_temp_url cf ev info c) \<noteq> Inl InvalidParameterValue"
    "ret (swift_temp_url cf ev info c) \<noteq> Inl ImageUnacceptable"
    "ret (swift_temp_url cf ev info c) \<noteq> Inl MissingParameterValue"
    using ne r by simp_all
  from ne' obtain i E K name g where s:
    "info ''id'' = Some i"
    "g = generate_temp_url cf ev (url_path cf (fst (account_lookup cf ev)) name i)
           (swift_temp_url_duration cf) K ''GET'' (re_sub_v1_auth E) i c"
    "ret (swift_temp_url cf ev info c) = ret g"
    "cache_after (swift_temp_url cf ev info c) = cache_after g"
    "signings (calls (swift_temp_url cf ev info c)) = signings (calls g)"
    by (rule swift_temp_url_success)
  let ?c1 = "remove_expired_items_from_cache cf ev c"
  have c1: "?c1 k = (case c k of None \<Rightarrow> None
                 | Some el \<Rightarrow>
                     if url_expires_at el
                          < time_now ev + swift_temp_url_expected_download_start_delay cf
                     then None else Some el)" for k
    by (simp add: remove_expired_items_from_cache_def Let_def)
  have shape: "cache_after g = ?c1
      \<or> (?c1 i = None \<and> signings (calls g) = 1
          \<and> (\<exists>u e. ret g = Inr u \<and> cache_after g = ?c1(i \<mapsto> \<lparr>url = u, url_expires_at = e\<rparr>)))"
  proof (cases "?c1 i")
    case (Some el)
    have "g = \<lparr>ret = Inr (url el), cache_after = ?c1, calls = []\<rparr>"
      unfolding s(2) by (rule generate_temp_url_hit [OF en Some])
    then show ?thesis by simp
  next
    case None
    from generate_temp_url_miss [OF en None s(2)] None show ?thesis
      by (cases "ret g") auto
  qed
  have 1: "cache_after r k = ?c1 k" if "info ''id'' \<noteq> Some k" for k
    using shape that s(1,4) r by auto
  have 2: "info ''id'' = Some k \<and> ret r = Inr (url el) \<and> signings (calls r) = 1"
    if h: "cache_after r k = Some el"
      "url_expires_at el < time_now ev + swift_temp_url_expected_download_start_delay cf"
    for k el
  proof -
    have old: "?c1 k \<noteq> Some el" using h(2) by (simp add: remove_expired_Some)
    have g: "cache_after g k = Some el" using h(1) r s(4) by simp
    from shape show ?thesis
    proof
      assume "cache_after g = ?c1"
      then show ?thesis using g old by simp
    next
      assume b: "?c1 i = None \<and> signings (calls g) = 1
          \<and> (\<exists>u e. ret g = Inr u \<and> cache_after g = ?c1(i \<mapsto> \<lparr>url = u, url_expires_at = e\<rparr>))"
      then obtain u e where ue: "ret g = Inr u"
        "cache_after g = ?c1(i \<mapsto> \<lparr>url = u, url_expires_at = e\<rparr>)" by blast
      have ki: "k = i" using g ue(2) old by (cases "k = i") simp_all
      have "el = \<lparr>url = u, url_expires_at = e\<rparr>" using g ue(2) ki by simp
      then show ?thesis using ue b ki s(1,3,5) r by simp
    qed
  qed
  have A: "\<forall>k. info ''id'' \<noteq> Some k \<longrightarrow>
            cache_after r k
              = (case c k of
                   None \<Rightarrow> None
                 | Some el \<Rightarrow>
                     if url_expires_at el
                          < time_now ev + swift_temp_url_expected_download_start_delay cf
                     then None else Some el)"
    using 1 c1 by simp
  have B: "\<forall>k el. cache_after r k = Some el
              \<and> url_expires_at el
                   < time_now ev + swift_temp_url_expected_download_start_delay cf \<longrightarrow>
            info ''id'' = Some k \<and> ret r = Inr (url el) \<and> signings (calls r) = 1"
    using 2 by blast
  show ?thesis by (rule conjI [OF A B])
qed

theorem swift_temp_url_eviction_witness:
  "cache_after (swift_temp_url example_conf example_env example_info example_cache)
      ''7c9e6679-7425-40de-944b-e07fc1f90ae7'' = None
   \<and> example_info ''id'' = Some example_uuid
   \<and> ret (swift_temp_url example_conf example_slow_env
         example_info example_cache) = Inr example_slow_url
   \<and> signings (calls (swift_temp_url example_conf example_slow_env
         example_info example_cache)) = 1"
proof -
  let ?k = "''7c9e6679-7425-40de-944b-e07fc1f90ae7''"
  let ?ra = "swift_temp_url example_conf example_env example_info example_cache"
  let ?ev = "example_slow_env"
  let ?rb = "swift_temp_url example_conf ?ev example_info example_cache"
  have en: "swift_temp_url_cache_enabled example_conf" by (simp add: example_conf_def)
  have na: "ret ?ra \<noteq> Inl InvalidParameterValue" "ret ?ra \<noteq> Inl ImageUnacceptable"
    "ret ?ra \<noteq> Inl MissingParameterValue"
    by code_simp+
  have nb: "ret ?rb \<noteq> Inl InvalidParameterValue" "ret ?rb \<noteq> Inl ImageUnacceptable"
    "ret ?rb \<noteq> Inl MissingParameterValue"
    by code_simp+
  have k: "example_info ''id'' \<noteq> Some ?k" by code_simp
  have old: "(case example_cache ?k of
                   None \<Rightarrow> None
                 | Some el \<Rightarrow>
                     if url_expires_at el
                          < time_now example_env
                            + swift_temp_url_expected_download_start_delay example_conf
                     then None else Some el) = None"
    by code_simp
  have fresh: "cache_after ?rb example_uuid = Some \<lparr>url = example_slow_url, url_expires_at = 1200\<rparr>
      \<and> url_expires_at \<lparr>url = example_slow_url, url_expires_at = 1200\<rparr>
           < time_now ?ev + swift_temp_url_expected_download_start_delay example_conf"
    by code_simp
  note ta = swift_temp_url_eviction [OF en refl na, THEN conjunct1, rule_format, OF k]
  have 1: "cache_after ?ra ?k = None" using ta old by simp
  note tb = swift_temp_url_eviction [OF en refl nb, THEN conjunct2, rule_format, OF fresh]
  have 2: "example_info ''id'' = Some example_uuid
      \<and> ret ?rb = Inr example_slow_url
      \<and> signings (calls ?rb) = 1"
    using tb by simp
  show ?thesis using 1 2 by simp
qed

subsection \<open>The endpoint\<close>

lemma strip_v1_auth_intro:
  assumes "t \<noteq> []" "CHR ''/'' \<notin> set t"
  shows "strip_v1_auth (p @ ''/v1/AUTH_'' @ t) = Some p"
proof -
  have r: "rev (p @ ''/v1/AUTH_'' @ t) = (rev t @ ''_HTUA'') @ ''/1v/'' @ rev p"
    by simp
  have nt: "\<And>x. x \<in> set (rev t @ ''_HTUA'') \<Longrightarrow> x \<noteq> CHR ''/''"
    using assms(2) by auto
  have tw: "takeWhile (\<lambda>c. c \<noteq> CHR ''/'') (rev (p @ ''/v1/AUTH_'' @ t)) = rev t @ ''_HTUA''"
  proof -
    have "takeWhile (\<lambda>c. c \<noteq> CHR ''/'') ((rev t @ ''_HTUA'') @ ''/1v/'' @ rev p)
        = (rev t @ ''_HTUA'') @ takeWhile (\<lambda>c. c \<noteq> CHR ''/'') (''/1v/'' @ rev p)"
      by (rule takeWhile_append2) (rule nt)
    then show ?thesis unfolding r by simp
  qed
  have dw: "dropWhile (\<lambda>c. c \<noteq> CHR ''/'') (rev (p @ ''/v1/AUTH_'' @ t)) = ''/1v/'' @ rev p"
  proof -
    have "dropWhile (\<lambda>c. c \<noteq> CHR ''/'') ((rev t @ ''_HTUA'') @ ''/1v/'' @ rev p)
        = dropWhile (\<lambda>c. c \<noteq> CHR ''/'') (''/1v/'' @ rev p)"
      by (rule dropWhile_append2) (rule nt)
    then show ?thesis unfolding r by simp
  qed
  show ?thesis
    unfolding strip_v1_auth_def Let_def tw dw using assms(1) by simp
qed

lemma strip_v1_auth_elim:
  assumes "strip_v1_auth body = Some p"
  shows "\<exists>t. t \<noteq> [] \<and> CHR ''/'' \<notin> set t \<and> body = p @ ''/v1/AUTH_'' @ t"
proof -
  define r where "r = rev body"
  define seg where "seg = takeWhile (\<lambda>c. c \<noteq> CHR ''/'') r"
  define rest where "rest = dropWhile (\<lambda>c. c \<noteq> CHR ''/'') r"
  have c: "5 < length seg" "drop (length seg - 5) seg = ''_HTUA''" "take 4 rest = ''/1v/''"
    "p = rev (drop 4 rest)"
    using assms unfolding strip_v1_auth_def Let_def r_def seg_def rest_def
    by (auto split: if_splits)
  have r: "r = seg @ rest" unfolding seg_def rest_def by simp
  define t' where "t' = take (length seg - 5) seg"
  have seg: "seg = t' @ ''_HTUA''"
    unfolding t'_def using c(2) append_take_drop_id [of "length seg - 5" seg] by simp
  have rest: "rest = ''/1v/'' @ drop 4 rest"
    using c(3) append_take_drop_id [of 4 rest] by simp
  have "body = rev r" by (simp add: r_def)
  also have "\<dots> = rev rest @ rev seg" by (simp add: r)
  also have "\<dots> = rev (''/1v/'' @ drop 4 rest) @ rev (t' @ ''_HTUA'')"
    using rest seg by simp
  also have "\<dots> = p @ ''/v1/AUTH_'' @ rev t'" by (simp add: c(4))
  finally have b: "body = p @ ''/v1/AUTH_'' @ rev t'" .
  have "length t' = length seg - 5" by (simp add: t'_def)
  then have "t' \<noteq> []" using c(1) by auto
  moreover have "CHR ''/'' \<notin> set (rev t')"
  proof -
    have "set t' \<subseteq> set seg" unfolding t'_def by (rule set_take_subset)
    moreover have "CHR ''/'' \<notin> set seg"
      unfolding seg_def using set_takeWhileD by fastforce
    ultimately show ?thesis by auto
  qed
  ultimately show ?thesis using b by auto
qed

lemma re_sub_v1_auth_plain:
  assumes "t \<noteq> []" "CHR ''/'' \<notin> set t"
  shows "re_sub_v1_auth (e @ ''/v1/AUTH_'' @ t) = e"
proof -
  let ?s = "e @ ''/v1/AUTH_'' @ t"
  have l: "last ?s = last t" using assms(1) by simp
  have nl: "last ?s \<noteq> CHR ''/''" using assms l last_in_set [of t] by metis
  have b: "butlast ?s = e @ ''/v1/AUTH_'' @ butlast t"
    using assms(1) by (simp add: butlast_append)
  have nb: "last (butlast ?s) \<noteq> CHR ''/''"
  proof (cases "butlast t = []")
    case True
    then show ?thesis unfolding b by simp
  next
    case False
    then have "last (butlast ?s) = last (butlast t)" unfolding b by simp
    moreover have "last (butlast t) \<in> set t"
      using False last_in_set [of "butlast t"] in_set_butlastD by metis
    ultimately show ?thesis using assms(2) by metis
  qed
  show ?thesis
    unfolding re_sub_v1_auth_def using nl nb strip_v1_auth_intro [OF assms, of e]
    by simp
qed

lemma re_sub_v1_auth_slash:
  assumes "t \<noteq> []" "CHR ''/'' \<notin> set t"
  shows "re_sub_v1_auth (e @ ''/v1/AUTH_'' @ t @ ''/'') = e"
proof -
  have a: "e @ ''/v1/AUTH_'' @ t @ ''/'' = (e @ ''/v1/AUTH_'' @ t) @ ''/''" by simp
  show ?thesis
    unfolding a re_sub_v1_auth_def using strip_v1_auth_intro [OF assms, of e]
    by (simp del: append_assoc)
qed

lemma re_sub_v1_auth_newline:
  assumes "t \<noteq> []" "CHR ''/'' \<notin> set t"
  shows "re_sub_v1_auth (e @ ''/v1/AUTH_'' @ t @ [CHR ''/'', CHR 0x0A]) = e @ [CHR 0x0A]"
proof -
  have a: "e @ ''/v1/AUTH_'' @ t @ [CHR ''/'', CHR 0x0A]
      = ((e @ ''/v1/AUTH_'' @ t) @ ''/'') @ [CHR 0x0A]" by simp
  show ?thesis
    unfolding a re_sub_v1_auth_def using strip_v1_auth_intro [OF assms, of e]
    by (simp del: append_assoc)
qed

lemma re_sub_v1_auth_changed:
  assumes "re_sub_v1_auth s \<noteq> s"
  shows "has_v1_auth_suffix s
     \<or> (\<exists>e t. t \<noteq> [] \<and> CHR ''/'' \<notin> set t
           \<and> s = e @ ''/v1/AUTH_'' @ t @ [CHR ''/'', CHR 0x0A])"
proof -
  consider
    (nl) "s \<noteq> []" "last s = CHR 0x0A" "butlast s \<noteq> []" "last (butlast s) = CHR ''/''"
  | (sl) "\<not> (s \<noteq> [] \<and> last s = CHR 0x0A \<and> butlast s \<noteq> [] \<and> last (butlast s) = CHR ''/'')"
      "s \<noteq> []" "last s = CHR ''/''"
  | (pl) "\<not> (s \<noteq> [] \<and> last s = CHR 0x0A \<and> butlast s \<noteq> [] \<and> last (butlast s) = CHR ''/'')"
      "\<not> (s \<noteq> [] \<and> last s = CHR ''/'')"
    by blast
  then show ?thesis
  proof cases
    case nl
    then obtain p where p: "strip_v1_auth (butlast (butlast s)) = Some p"
      using assms unfolding re_sub_v1_auth_def by (auto split: option.splits)
    then obtain t where t: "t \<noteq> []" "CHR ''/'' \<notin> set t"
      "butlast (butlast s) = p @ ''/v1/AUTH_'' @ t"
      using strip_v1_auth_elim by blast
    have "s = butlast s @ [CHR 0x0A]" using nl(1,2) append_butlast_last_id by metis
    moreover have "butlast s = butlast (butlast s) @ [CHR ''/'']"
      using nl(3,4) append_butlast_last_id by metis
    ultimately have "s = p @ ''/v1/AUTH_'' @ t @ [CHR ''/'', CHR 0x0A]"
      using t(3) by simp
    then show ?thesis using t by blast
  next
    case sl
    then obtain p where p: "strip_v1_auth (butlast s) = Some p"
      using assms unfolding re_sub_v1_auth_def by (auto split: option.splits)
    then obtain t where t: "t \<noteq> []" "CHR ''/'' \<notin> set t" "butlast s = p @ ''/v1/AUTH_'' @ t"
      using strip_v1_auth_elim by blast
    have "s = butlast s @ ''/''" using sl(2,3) append_butlast_last_id by metis
    then have "s = p @ ''/v1/AUTH_'' @ t @ ''/''" using t(3) by simp
    then show ?thesis unfolding has_v1_auth_suffix_def using t by blast
  next
    case pl
    then obtain p where p: "strip_v1_auth s = Some p"
      using assms unfolding re_sub_v1_auth_def by (auto split: option.splits)
    then obtain t where t: "t \<noteq> []" "CHR ''/'' \<notin> set t" "s = p @ ''/v1/AUTH_'' @ t"
      using strip_v1_auth_elim by blast
    then show ?thesis unfolding has_v1_auth_suffix_def by blast
  qed
qed


lemma has_v1_auth_suffix_iff:
  "has_v1_auth_suffix s
     = (strip_v1_auth s \<noteq> None
        \<or> (s \<noteq> [] \<and> last s = CHR ''/'' \<and> strip_v1_auth (butlast s) \<noteq> None))"
proof
  assume "has_v1_auth_suffix s"
  then obtain e t where t: "t \<noteq> []" "CHR ''/'' \<notin> set t"
    and s: "s = e @ ''/v1/AUTH_'' @ t \<or> s = e @ ''/v1/AUTH_'' @ t @ ''/''"
    unfolding has_v1_auth_suffix_def by blast
  from s show "strip_v1_auth s \<noteq> None
        \<or> (s \<noteq> [] \<and> last s = CHR ''/'' \<and> strip_v1_auth (butlast s) \<noteq> None)"
  proof
    assume "s = e @ ''/v1/AUTH_'' @ t"
    then show ?thesis using strip_v1_auth_intro [OF t, of e] by simp
  next
    assume a: "s = e @ ''/v1/AUTH_'' @ t @ ''/''"
    then have "s = (e @ ''/v1/AUTH_'' @ t) @ ''/''" by simp
    then have "last s = CHR ''/''" "butlast s = e @ ''/v1/AUTH_'' @ t" "s \<noteq> []"
      by (simp_all del: append_assoc)
    then show ?thesis using strip_v1_auth_intro [OF t, of e] by simp
  qed
next
  assume "strip_v1_auth s \<noteq> None
        \<or> (s \<noteq> [] \<and> last s = CHR ''/'' \<and> strip_v1_auth (butlast s) \<noteq> None)"
  then show "has_v1_auth_suffix s"
  proof
    assume "strip_v1_auth s \<noteq> None"
    then obtain p where "strip_v1_auth s = Some p" by auto
    then show ?thesis unfolding has_v1_auth_suffix_def using strip_v1_auth_elim by blast
  next
    assume a: "s \<noteq> [] \<and> last s = CHR ''/'' \<and> strip_v1_auth (butlast s) \<noteq> None"
    then obtain p where "strip_v1_auth (butlast s) = Some p" by auto
    then obtain t where t: "t \<noteq> []" "CHR ''/'' \<notin> set t" "butlast s = p @ ''/v1/AUTH_'' @ t"
      using strip_v1_auth_elim by blast
    have "s = butlast s @ ''/''" using a append_butlast_last_id by metis
    then have "s = p @ ''/v1/AUTH_'' @ t @ ''/''" using t(3) by simp
    then show ?thesis unfolding has_v1_auth_suffix_def using t by blast
  qed
qed

lemma generate_temp_url_get_endpoint:
  "generate_temp_url cf (ev\<lparr>get_endpoint := x\<rparr>) path seconds key method endpoint i c
     = generate_temp_url cf ev path seconds key method endpoint i c"
  by (simp add: generate_temp_url_def remove_expired_items_from_cache_def
      cong: option.case_cong if_cong)

lemma generate_temp_url_swift_endpoint_url:
  "generate_temp_url (cf\<lparr>swift_endpoint_url := x\<rparr>) ev path seconds key method endpoint i c
     = generate_temp_url cf ev path seconds key method endpoint i c"
  by (simp add: generate_temp_url_def remove_expired_items_from_cache_def
      cong: option.case_cong if_cong)

lemma swift_temp_url_catalog_endpoint:
  assumes "a \<noteq> []" "b \<noteq> []" "re_sub_v1_auth a = re_sub_v1_auth b"
  shows "swift_temp_url cf (ev\<lparr>get_endpoint := Some a\<rparr>) info c
           = swift_temp_url cf (ev\<lparr>get_endpoint := Some b\<rparr>) info c"
  using assms
  by (simp add: swift_temp_url_def generate_temp_url_get_endpoint Let_def
      split: option.splits sum.splits prod.splits)

lemma swift_temp_url_configured_endpoint:
  assumes "a \<noteq> []" "b \<noteq> []" "re_sub_v1_auth a = re_sub_v1_auth b"
  shows "swift_temp_url (cf\<lparr>swift_endpoint_url := Some a\<rparr>) ev info c
           = swift_temp_url (cf\<lparr>swift_endpoint_url := Some b\<rparr>) ev info c"
  using assms
  by (simp add: swift_temp_url_def generate_temp_url_swift_endpoint_url
      validate_temp_url_config_def get_swift_container_def falsy_def Let_def
      split: option.splits sum.splits prod.splits)

lemma example_newline_endpoint_no_suffix: "\<not> has_v1_auth_suffix example_newline_endpoint"
  unfolding has_v1_auth_suffix_iff by code_simp

lemma example_newline_endpoint_changed:
  "re_sub_v1_auth example_newline_endpoint = ''https://proxy.example.com'' @ [CHR 0x0A]
   \<and> re_sub_v1_auth example_newline_endpoint \<noteq> example_newline_endpoint"
  by code_simp

text \<open>
  C10, as stated, fails. The endpoint below ends in a slash and a line feed, so it
  does not end in \<^verbatim>\<open>/v1/AUTH_<tenant>\<close> with or without a slash; yet it is not
  used unchanged: the account and the slash are removed, the line feed stays, and the
  URL is composed from the result.
\<close>

theorem re_sub_v1_auth_counterexample:
  "\<not> has_v1_auth_suffix example_newline_endpoint
   \<and> re_sub_v1_auth example_newline_endpoint = ''https://proxy.example.com'' @ [CHR 0x0A]
   \<and> re_sub_v1_auth example_newline_endpoint \<noteq> example_newline_endpoint
   \<and> ret (swift_temp_url
         (example_conf\<lparr>swift_temp_url_cache_enabled := False,
            swift_endpoint_url := Some example_newline_endpoint\<rparr>)
         example_env example_info Map.empty)
       = Inr (''https://proxy.example.com'' @ [CHR 0x0A]
              @ ''/v1/AUTH_a422b2/glance_3a1bcd4f-ef01-/3a1bcd4f-ef01-4a2b-8c3d-0123456789ab?temp_url_sig=5e1f&temp_url_expires=2200'')"
proof -
  have "ret (swift_temp_url
         (example_conf\<lparr>swift_temp_url_cache_enabled := False,
            swift_endpoint_url := Some example_newline_endpoint\<rparr>)
         example_env example_info Map.empty)
       = Inr (''https://proxy.example.com'' @ [CHR 0x0A]
              @ ''/v1/AUTH_a422b2/glance_3a1bcd4f-ef01-/3a1bcd4f-ef01-4a2b-8c3d-0123456789ab?temp_url_sig=5e1f&temp_url_expires=2200'')"
    by code_simp
  then show ?thesis
    using example_newline_endpoint_no_suffix example_newline_endpoint_changed by blast
qed

text \<open>
  C10, amended. Before the URL is composed, one trailing \<^verbatim>\<open>/v1/AUTH_<tenant>\<close>,
  with or without a slash after it, is removed from the endpoint; when a slash and a
  line feed follow it, it is removed with the slash and the line feed stays. So an
  endpoint of that form, from the service catalog or from the configuration, gives the
  same outcome as the bare endpoint (not empty, and itself unchanged by the
  normalisation). An endpoint of none of these three forms is used unchanged.
\<close>

theorem re_sub_v1_auth_endpoint:
  assumes "t \<noteq> []" "CHR ''/'' \<notin> set t"
  shows "re_sub_v1_auth (e @ ''/v1/AUTH_'' @ t) = e
       \<and> re_sub_v1_auth (e @ ''/v1/AUTH_'' @ t @ ''/'') = e
       \<and> re_sub_v1_auth (e @ ''/v1/AUTH_'' @ t @ [CHR ''/'', CHR 0x0A]) = e @ [CHR 0x0A]
       \<and> (e \<noteq> [] \<and> re_sub_v1_auth e = e \<longrightarrow>
            swift_temp_url cf (ev\<lparr>get_endpoint := Some (e @ ''/v1/AUTH_'' @ t)\<rparr>) info c
              = swift_temp_url cf (ev\<lparr>get_endpoint := Some e\<rparr>) info c
            \<and> swift_temp_url cf (ev\<lparr>get_endpoint := Some (e @ ''/v1/AUTH_'' @ t @ ''/'')\<rparr>) info c
              = swift_temp_url cf (ev\<lparr>get_endpoint := Some e\<rparr>) info c
            \<and> swift_temp_url (cf\<lparr>swift_endpoint_url := Some (e @ ''/v1/AUTH_'' @ t)\<rparr>) ev info c
              = swift_temp_url (cf\<lparr>swift_endpoint_url := Some e\<rparr>) ev info c
            \<and> swift_temp_url (cf\<lparr>swift_endpoint_url := Some (e @ ''/v1/AUTH_'' @ t @ ''/'')\<rparr>)
                ev info c
              = swift_temp_url (cf\<lparr>swift_endpoint_url := Some e\<rparr>) ev info c)
       \<and> (re_sub_v1_auth s \<noteq> s \<longrightarrow>
            has_v1_auth_suffix s
            \<or> (\<exists>e' t'. t' \<noteq> [] \<and> CHR ''/'' \<notin> set t'
                  \<and> s = e' @ ''/v1/AUTH_'' @ t' @ [CHR ''/'', CHR 0x0A]))"
proof -
  note p = re_sub_v1_auth_plain [OF assms, of e]
  note q = re_sub_v1_auth_slash [OF assms, of e]
  have n1: "e @ ''/v1/AUTH_'' @ t \<noteq> []" "e @ ''/v1/AUTH_'' @ t @ ''/'' \<noteq> []" by simp_all
  have 4: "swift_temp_url cf (ev\<lparr>get_endpoint := Some (e @ ''/v1/AUTH_'' @ t)\<rparr>) info c
              = swift_temp_url cf (ev\<lparr>get_endpoint := Some e\<rparr>) info c
            \<and> swift_temp_url cf (ev\<lparr>get_endpoint := Some (e @ ''/v1/AUTH_'' @ t @ ''/'')\<rparr>) info c
              = swift_temp_url cf (ev\<lparr>get_endpoint := Some e\<rparr>) info c
            \<and> swift_temp_url (cf\<lparr>swift_endpoint_url := Some (e @ ''/v1/AUTH_'' @ t)\<rparr>) ev info c
              = swift_temp_url (cf\<lparr>swift_endpoint_url := Some e\<rparr>) ev info c
            \<and> swift_temp_url (cf\<lparr>swift_endpoint_url := Some (e @ ''/v1/AUTH_'' @ t @ ''/'')\<rparr>)
                ev info c
              = swift_temp_url (cf\<lparr>swift_endpoint_url := Some e\<rparr>) ev info c"
    if h: "e \<noteq> [] \<and> re_sub_v1_auth e = e"
  proof (intro conjI)
    show "swift_temp_url cf (ev\<lparr>get_endpoint := Some (e @ ''/v1/AUTH_'' @ t)\<rparr>) info c
              = swift_temp_url cf (ev\<lparr>get_endpoint := Some e\<rparr>) info c"
      by (rule swift_temp_url_catalog_endpoint) (use h p in simp_all)
    show "swift_temp_url cf (ev\<lparr>get_endpoint := Some (e @ ''/v1/AUTH_'' @ t @ ''/'')\<rparr>) info c
              = swift_temp_url cf (ev\<lparr>get_endpoint := Some e\<rparr>) info c"
      by (rule swift_temp_url_catalog_endpoint) (use h q in simp_all)
    show "swift_temp_url (cf\<lparr>swift_endpoint_url := Some (e @ ''/v1/AUTH_'' @ t)\<rparr>) ev info c
              = swift_temp_url (cf\<lparr>swift_endpoint_url := Some e\<rparr>) ev info c"
      by (rule swift_temp_url_configured_endpoint) (use h p in simp_all)
    show "swift_temp_url (cf\<lparr>swift_endpoint_url := Some (e @ ''/v1/AUTH_'' @ t @ ''/'')\<rparr>)
                ev info c
              = swift_temp_url (cf\<lparr>swift_endpoint_url := Some e\<rparr>) ev info c"
      by (rule swift_temp_url_configured_endpoint) (use h q in simp_all)
  qed
  show ?thesis
    using p q re_sub_v1_auth_newline [OF assms, of e] 4 re_sub_v1_auth_changed [of s]
    by blast
qed

theorem re_sub_v1_auth_endpoint_witness:
  "re_sub_v1_auth (''https://proxy.example.com'' @ ''/v1/AUTH_'' @ ''a422b2'')
     = ''https://proxy.example.com''
   \<and> re_sub_v1_auth (''https://proxy.example.com'' @ ''/v1/AUTH_'' @ ''a422b2'' @ ''/'')
     = ''https://proxy.example.com''
   \<and> swift_temp_url (example_conf\<lparr>swift_endpoint_url := None\<rparr>)
         (example_env\<lparr>get_endpoint :=
            Some (''https://proxy.example.com'' @ ''/v1/AUTH_'' @ ''a422b2'')\<rparr>)
         example_info example_cache
       = swift_temp_url (example_conf\<lparr>swift_endpoint_url := None\<rparr>)
           (example_env\<lparr>get_endpoint := Some ''https://proxy.example.com''\<rparr>)
           example_info example_cache
   \<and> (\<exists>e' t'. t' \<noteq> [] \<and> CHR ''/'' \<notin> set t'
         \<and> example_newline_endpoint = e' @ ''/v1/AUTH_'' @ t' @ [CHR ''/'', CHR 0x0A])"
proof -
  have t: "''a422b2'' \<noteq> []" "CHR ''/'' \<notin> set ''a422b2''" by simp_all
  have e: "''https://proxy.example.com'' \<noteq> []
      \<and> re_sub_v1_auth ''https://proxy.example.com'' = ''https://proxy.example.com''"
    by code_simp
  note th = re_sub_v1_auth_endpoint [OF t, of "''https://proxy.example.com''"
      "example_conf\<lparr>swift_endpoint_url := None\<rparr>" example_env example_info example_cache
      example_newline_endpoint]
  show ?thesis
    using th e example_newline_endpoint_no_suffix example_newline_endpoint_changed
    by blast
qed

end
